theory Spec2Isabelle
  imports Main
begin

chapter \<open>The model\<close>

section \<open>JavaScript values shared by the modules\<close>

text \<open>
  Strings are lists of code units (\<open>string\<close>).  A character outside ASCII that occurs in a
  literal of the source is written by the bytes the UTF-8 source file holds for it.
  A thrown value is an \<open>Error\<close> object, of which only the message matters here.
\<close>

datatype js_error = Error string

fun message :: "js_error \<Rightarrow> string" where
  "message (Error m) = m"

text \<open>
  \<open>String(e?.message || e || fallback)\<close> for a thrown \<open>Error\<close>: the message when it is
  not empty; otherwise the error object itself is truthy and \<open>String(e)\<close> is its name.
  The last alternative of the chain is never reached for an object.
\<close>

definition error_text :: "js_error \<Rightarrow> string" where
  "error_text e = (if message e \<noteq> [] then message e else ''Error'')"

section \<open>Conversation log: \<open>MessageStore\<close>\<close>

datatype msg_role = System | User | Assistant

datatype content_part = TextPart string | ImagePart string

datatype msg_content = Text string | Parts "content_part list"

record CoreMessage =
  role :: msg_role
  content :: msg_content

text \<open>
  \<open>String(content || "")\<close>: a string stays as it is (the empty string is replaced by the
  empty string); an array is truthy and prints as its elements joined by commas, each
  element an object.
\<close>

fun join_comma :: "string list \<Rightarrow> string" where
  "join_comma [] = []"
| "join_comma [x] = x"
| "join_comma (x # y # ys) = x @ '','' @ join_comma (y # ys)"

fun String_content :: "msg_content \<Rightarrow> string" where
  "String_content (Text s) = s"
| "String_content (Parts ps) = join_comma (map (\<lambda>p. ''[object Object]'') ps)"

text \<open>
  The store: the message array, the index of the open streaming slot, whether a bridge
  emitter is attached, and the two outputs: what was sent to the renderer on
  \<open>chat-messages-updated\<close> and the assistant chat texts given to the bridge.
\<close>

record MessageStore =
  messages :: "CoreMessage list"
  streamingIndex :: "nat option"
  bridge :: bool
  rendererLog :: "CoreMessage list list"
  bridgeLog :: "string list"

definition emitToRenderer :: "MessageStore \<Rightarrow> MessageStore" where
  "emitToRenderer st = st\<lparr>rendererLog := rendererLog st @ [messages st]\<rparr>"

definition bridgeSafeChat :: "string \<Rightarrow> MessageStore \<Rightarrow> MessageStore" where
  "bridgeSafeChat txt st = (if bridge st then st\<lparr>bridgeLog := bridgeLog st @ [txt]\<rparr> else st)"




definition clear :: "MessageStore \<Rightarrow> MessageStore" where
  "clear st = emitToRenderer (st\<lparr>messages := []\<rparr>)"



definition beginStream :: "string \<Rightarrow> MessageStore \<Rightarrow> MessageStore" where
  "beginStream firstChunk st =
     bridgeSafeChat firstChunk
       (emitToRenderer
          (st\<lparr>streamingIndex := Some (length (messages st)),
              messages := messages st @ [\<lparr>role = Assistant, content = Text firstChunk\<rparr>]\<rparr>))"

text \<open>
  \<open>appendStream\<close> reads \<open>this.messages[this.streamingIndex].content\<close>; when the index
  is past the end of the array the element is \<open>undefined\<close> and the read throws.
\<close>

definition appendStream :: "string \<Rightarrow> MessageStore \<Rightarrow> js_error + MessageStore" where
  "appendStream chunk st =
     (case streamingIndex st of
        None \<Rightarrow> Inr (beginStream chunk st)
      | Some i \<Rightarrow>
          if i < length (messages st) then
            (let prev = String_content (content (messages st ! i));
                 next = prev @ chunk
             in Inr (bridgeSafeChat chunk
                      (emitToRenderer
                        (st\<lparr>messages := (messages st)[i := \<lparr>role = Assistant, content = Text next\<rparr>]\<rparr>))))
          else Inl (Error ''Cannot read properties of undefined''))"

definition endStream :: "MessageStore \<Rightarrow> MessageStore" where
  "endStream st = emitToRenderer (st\<lparr>streamingIndex := None\<rparr>)"

text \<open>The calls \<open>appendStream(c1)\<close>, ..., \<open>appendStream(cN)\<close> in order; a throw ends the sequence.\<close>

fun appendStreams :: "string list \<Rightarrow> MessageStore \<Rightarrow> js_error + MessageStore" where
  "appendStreams [] st = Inr st"
| "appendStreams (c # cs) st =
     (case appendStream c st of Inl e \<Rightarrow> Inl e | Inr st' \<Rightarrow> appendStreams cs st')"

text \<open>\<open>beginStream(c0)\<close>, the appends, then \<open>endStream()\<close>.\<close>

definition streamCalls :: "string \<Rightarrow> string list \<Rightarrow> MessageStore \<Rightarrow> js_error + MessageStore" where
  "streamCalls c0 cs st =
     (case appendStreams cs (beginStream c0 st) of
        Inl e \<Rightarrow> Inl e
      | Inr st' \<Rightarrow> Inr (endStream st'))"

section \<open>Provider selection: \<open>ModelManager\<close>\<close>

text \<open>
  \<open>String.prototype.toLowerCase\<close> on the code units the configuration values and the
  phrasings of this program are written in: the ASCII capitals are mapped to the small
  letters, every other code unit is kept.
\<close>

definition lower_char :: "char \<Rightarrow> char" where
  "lower_char c =
     (case map_of (zip ''ABCDEFGHIJKLMNOPQRSTUVWXYZ'' ''abcdefghijklmnopqrstuvwxyz'') c of
        None \<Rightarrow> c
      | Some d \<Rightarrow> d)"

definition toLowerCase :: "string \<Rightarrow> string" where
  "toLowerCase s = map lower_char s"

text \<open>\<open>x || d\<close> for an optional string: \<open>undefined\<close> and the empty string are falsy.\<close>

fun or_default :: "string option \<Rightarrow> string \<Rightarrow> string" where
  "or_default None d = d"
| "or_default (Some s) d = (if s = [] then d else s)"

datatype OnlineProvider = openai | anthropic

datatype LLMProvider = Online OnlineProvider | apple

fun DEFAULT_MODELS :: "OnlineProvider \<Rightarrow> string" where
  "DEFAULT_MODELS openai = ''gpt-4o-mini''"
| "DEFAULT_MODELS anthropic = ''claude-3-5-sonnet-20241022''"

text \<open>A model handle: which factory made it, and for the cloud factories the model name.\<close>

datatype LanguageModel = AppleModel | OpenAIModel string | AnthropicModel string

record AppleAvailability =
  available :: bool
  reason :: string

text \<open>
  What the manager reads from outside: the environment variables, the answer of
  \<open>checkAppleAvailability()\<close> (which catches its own failures) and whether
  \<open>createAppleLanguageModel()\<close> throws.
\<close>

record Env =
  OFFLINE_MODE :: "string option"
  LLM_PROVIDER :: "string option"
  LLM_MODEL :: "string option"
  OPENAI_API_KEY :: "string option"
  ANTHROPIC_API_KEY :: "string option"
  checkAppleAvailability :: AppleAvailability
  createAppleLanguageModel :: "js_error option"

record ModelManager =
  baseOnlineProvider :: OnlineProvider
  provider :: LLMProvider
  modelName :: "string option"
  model :: "LanguageModel option"
  offlineMode :: bool
  appleAvailabilityChecked :: bool
  appleAvailable :: bool
  appleUnavailableReason :: "string option"

definition getInitialOfflineMode :: "Env \<Rightarrow> bool" where
  "getInitialOfflineMode env =
     (let fromEnv = toLowerCase (or_default (OFFLINE_MODE env) []);
          providerEnv = toLowerCase (or_default (LLM_PROVIDER env) [])
      in if fromEnv = ''1'' \<or> fromEnv = ''true'' \<or> providerEnv = ''apple'' then True else False)"

definition getBaseOnlineProvider :: "Env \<Rightarrow> OnlineProvider" where
  "getBaseOnlineProvider env =
     (case LLM_PROVIDER env of
        None \<Rightarrow> openai
      | Some p \<Rightarrow> if toLowerCase p = ''anthropic'' then anthropic else openai)"

definition getModelName :: "Env \<Rightarrow> ModelManager \<Rightarrow> string option" where
  "getModelName env m =
     (if provider m = apple then None
      else Some (or_default (LLM_MODEL env) (DEFAULT_MODELS (baseOnlineProvider m))))"

definition getApiKey :: "Env \<Rightarrow> OnlineProvider \<Rightarrow> string option" where
  "getApiKey env b = (case b of anthropic \<Rightarrow> ANTHROPIC_API_KEY env | openai \<Rightarrow> OPENAI_API_KEY env)"

text \<open>The constructor; the model handle is created later by \<open>init\<close>.\<close>

definition new_ModelManager :: "Env \<Rightarrow> ModelManager" where
  "new_ModelManager env =
     (let b = getBaseOnlineProvider env;
          off = getInitialOfflineMode env;
          m = \<lparr>baseOnlineProvider = b, provider = (if off then apple else Online b),
               modelName = None, model = None, offlineMode = off,
               appleAvailabilityChecked = False, appleAvailable = False,
               appleUnavailableReason = None\<rparr>
      in m\<lparr>modelName := getModelName env m\<rparr>)"

definition initializeModel :: "Env \<Rightarrow> ModelManager \<Rightarrow> ModelManager" where
  "initializeModel env m =
     (if provider m = apple then
        (let m1 = (if \<not> appleAvailabilityChecked m then
                     m\<lparr>appleAvailable := available (checkAppleAvailability env),
                       appleUnavailableReason :=
                         (if reason (checkAppleAvailability env) = [] then None
                          else Some (reason (checkAppleAvailability env))),
                       appleAvailabilityChecked := True\<rparr>
                   else m)
         in if \<not> appleAvailable m1 then m1\<lparr>model := None\<rparr>
            else (case createAppleLanguageModel env of
                    None \<Rightarrow> m1\<lparr>model := Some AppleModel\<rparr>
                  | Some e \<Rightarrow>
                      m1\<lparr>model := None, appleAvailable := False,
                         appleUnavailableReason :=
                           Some (''load-failed:'' @ (if message e = [] then ''unknown'' else message e))\<rparr>))
      else if or_default (getApiKey env (baseOnlineProvider m)) [] = [] then m\<lparr>model := None\<rparr>
      else (case baseOnlineProvider m of
              anthropic \<Rightarrow>
                m\<lparr>model := Some (AnthropicModel (or_default (modelName m) (DEFAULT_MODELS anthropic)))\<rparr>
            | openai \<Rightarrow>
                m\<lparr>model := Some (OpenAIModel (or_default (modelName m) (DEFAULT_MODELS openai)))\<rparr>))"

definition init :: "Env \<Rightarrow> ModelManager \<Rightarrow> ModelManager" where
  "init env m = initializeModel env m"

text \<open>\<open>setOfflineMode(enabled)\<close>: the returned boolean and the manager afterwards.\<close>

definition setOfflineMode :: "Env \<Rightarrow> bool \<Rightarrow> ModelManager \<Rightarrow> bool \<times> ModelManager" where
  "setOfflineMode env enabled m =
     (if offlineMode m = enabled then (offlineMode m, m)
      else if enabled then
        (let m1 = m\<lparr>provider := apple\<rparr>;
             m2 = m1\<lparr>modelName := getModelName env m1\<rparr>;
             m3 = initializeModel env m2
         in if model m3 = None then
              (let m4 = m3\<lparr>provider := Online (baseOnlineProvider m3)\<rparr>;
                   m5 = m4\<lparr>modelName := getModelName env m4\<rparr>;
                   m6 = initializeModel env m5
               in (False, m6\<lparr>offlineMode := False\<rparr>))
            else (True, m3\<lparr>offlineMode := True\<rparr>))
      else
        (let m1 = m\<lparr>provider := Online (baseOnlineProvider m)\<rparr>;
             m2 = m1\<lparr>modelName := getModelName env m1\<rparr>;
             m3 = initializeModel env m2
         in (False, m3\<lparr>offlineMode := False\<rparr>)))"

text \<open>Environments for the examples: a machine without the on-device model, started in
  offline mode with an OpenAI key configured; the same machine started online; a machine
  that reports the on-device model as available; and that machine without any API key.\<close>

definition env_offline_no_apple :: Env where
  "env_offline_no_apple =
     \<lparr>OFFLINE_MODE = Some ''1'', LLM_PROVIDER = None, LLM_MODEL = None,
      OPENAI_API_KEY = Some ''sk-test'', ANTHROPIC_API_KEY = None,
      checkAppleAvailability = \<lparr>available = False, reason = ''unavailable-or-not-installed''\<rparr>,
      createAppleLanguageModel = None\<rparr>"

definition env_online_no_apple :: Env where
  "env_online_no_apple = env_offline_no_apple\<lparr>OFFLINE_MODE := None\<rparr>"

definition env_apple_ok :: Env where
  "env_apple_ok =
     env_offline_no_apple\<lparr>checkAppleAvailability := \<lparr>available = True, reason = []\<rparr>\<rparr>"

definition env_apple_no_key :: Env where
  "env_apple_no_key = env_apple_ok\<lparr>OPENAI_API_KEY := None\<rparr>"

section \<open>Tool capabilities: \<open>buildTools\<close> and \<open>buildNativeTools\<close>\<close>

record Link =
  link_text :: string
  href :: string

record PageInfo =
  title :: "string option"
  url :: "string option"
  summary :: string
  links :: "Link list"

text \<open>
  The \<open>data\<close> of an event frame: a tool call (tool name and the input's url), a tool result
  as the AI-SDK bundle sends it (tool name, title, url, \<open>linksCount\<close>), a tool result as the
  native tools send it (with \<open>summaryShort\<close> and \<open>links\<close> in addition), and the data of
  the other events of the program.  An event is its name and its data.
\<close>

datatype EventData =
    ToolCallData string "string option"
  | ToolResultData string "string option" "string option" nat
  | ToolResultNative string "string option" "string option" nat string "Link list"
  | ActiveTabData "string option" string
  | FeatureStateData bool
  | PageOpenedData string string

type_synonym Event = "string \<times> EventData"

text \<open>What a tool hands back to the model: the page info, or the object \<open>{error}\<close>.\<close>

datatype ToolOutput = ToolInfo PageInfo | ToolError string

text \<open>
  A call that may throw, in a world \<open>'w\<close> that it may change: the outcome (\<open>Inl\<close> the thrown
  error) and the world afterwards.  \<open>try { f } catch { /* ignore */ }\<close> keeps the world.
\<close>

type_synonym ('a, 'w) js = "'w \<Rightarrow> (js_error + 'a) \<times> 'w"

definition try_ignore :: "(unit, 'w) js \<Rightarrow> 'w \<Rightarrow> 'w" where
  "try_ignore f w = snd (f w)"

text \<open>
  The \<open>execute\<close> functions of the AI-SDK bundle.  The callbacks \<open>emit\<close> and \<open>setLast\<close> and
  the inspector's method are parameters, as in the source.  Every throw inside the outer
  \<open>try\<close> ends in its \<open>catch\<close>, which returns \<open>{error}\<close>.
\<close>

definition open_url_execute ::
  "(Event \<Rightarrow> (unit, 'w) js) \<Rightarrow> (PageInfo \<Rightarrow> (unit, 'w) js) \<Rightarrow> (string \<Rightarrow> (PageInfo, 'w) js)
     \<Rightarrow> string \<Rightarrow> (ToolOutput, 'w) js" where
  "open_url_execute emit setLast openUrlAndGetInfo input_url w =
     (let w1 = try_ignore (emit (''toolCall'', ToolCallData ''open_url'' (Some input_url))) w
      in case openUrlAndGetInfo input_url w1 of
           (Inl e, w2) \<Rightarrow> (Inr (ToolError (error_text e)), w2)
         | (Inr info, w2) \<Rightarrow>
             (case setLast info w2 of
                (Inl e, w3) \<Rightarrow> (Inr (ToolError (error_text e)), w3)
              | (Inr u, w3) \<Rightarrow>
                  (let w4 = try_ignore
                              (emit (''toolResult'',
                                 ToolResultData ''open_url'' (title info) (url info) (length (links info)))) w3
                   in (Inr (ToolInfo info), w4))))"

definition get_page_info_execute ::
  "(Event \<Rightarrow> (unit, 'w) js) \<Rightarrow> (PageInfo \<Rightarrow> (unit, 'w) js) \<Rightarrow> (PageInfo, 'w) js
     \<Rightarrow> (ToolOutput, 'w) js" where
  "get_page_info_execute emit setLast getActivePageInfo w =
     (case getActivePageInfo w of
        (Inl e, w2) \<Rightarrow> (Inr (ToolError (error_text e)), w2)
      | (Inr info, w2) \<Rightarrow>
          (case setLast info w2 of
             (Inl e, w3) \<Rightarrow> (Inr (ToolError (error_text e)), w3)
           | (Inr u, w3) \<Rightarrow>
               (let w4 = try_ignore
                           (emit (''toolResult'',
                              ToolResultData ''get_page_info'' (title info) (url info) (length (links info)))) w3
                in (Inr (ToolInfo info), w4))))"

text \<open>The \<open>handler\<close> functions of the native tools.\<close>

definition native_open_url_handler ::
  "(Event \<Rightarrow> (unit, 'w) js) \<Rightarrow> (PageInfo \<Rightarrow> (unit, 'w) js) \<Rightarrow> (string \<Rightarrow> (PageInfo, 'w) js)
     \<Rightarrow> string \<Rightarrow> (ToolOutput, 'w) js" where
  "native_open_url_handler emit setLast openUrlAndGetInfo input_url w =
     (let w1 = try_ignore (emit (''toolCall'', ToolCallData ''open_url'' (Some input_url))) w
      in case openUrlAndGetInfo input_url w1 of
           (Inl e, w2) \<Rightarrow> (Inr (ToolError (error_text e)), w2)
         | (Inr info, w2) \<Rightarrow>
             (case setLast info w2 of
                (Inl e, w3) \<Rightarrow> (Inr (ToolError (error_text e)), w3)
              | (Inr u, w3) \<Rightarrow>
                  (let linksLimited = take 8 (links info);
                       summaryShort = take 300 (summary info);
                       w4 = try_ignore
                              (emit (''toolResult'',
                                 ToolResultNative ''open_url'' (title info) (url info)
                                   (length (links info)) summaryShort linksLimited)) w3
                   in (Inr (ToolInfo info), w4))))"

definition native_get_page_info_handler ::
  "(Event \<Rightarrow> (unit, 'w) js) \<Rightarrow> (PageInfo \<Rightarrow> (unit, 'w) js) \<Rightarrow> (PageInfo, 'w) js
     \<Rightarrow> (ToolOutput, 'w) js" where
  "native_get_page_info_handler emit setLast getActivePageInfo w =
     (case getActivePageInfo w of
        (Inl e, w2) \<Rightarrow> (Inr (ToolError (error_text e)), w2)
      | (Inr info, w2) \<Rightarrow>
          (case setLast info w2 of
             (Inl e, w3) \<Rightarrow> (Inr (ToolError (error_text e)), w3)
           | (Inr u, w3) \<Rightarrow>
               (let linksLimited = take 8 (links info);
                    summaryShort = take 300 (summary info);
                    w4 = try_ignore
                           (emit (''toolResult'',
                              ToolResultNative ''get_page_info'' (title info) (url info)
                                (length (links info)) summaryShort linksLimited)) w3
                in (Inr (ToolInfo info), w4))))"

text \<open>
  A world that records, in order, what a tool does: the events it emits, the inspector
  method it runs and the result it stores.  The inspector's outcome is given.
\<close>

datatype ToolAction = Emitted Event | Executed string | LastSet PageInfo

definition rec_emit :: "Event \<Rightarrow> (unit, ToolAction list) js" where
  "rec_emit ev tr = (Inr (), tr @ [Emitted ev])"

definition rec_setLast :: "PageInfo \<Rightarrow> (unit, ToolAction list) js" where
  "rec_setLast info tr = (Inr (), tr @ [LastSet info])"

definition rec_inspector :: "string \<Rightarrow> js_error + PageInfo \<Rightarrow> (PageInfo, ToolAction list) js" where
  "rec_inspector method outcome tr = (outcome, tr @ [Executed method])"


fun is_toolCall :: "ToolAction \<Rightarrow> bool" where
  "is_toolCall (Emitted (n, d)) = (n = ''toolCall'')"
| "is_toolCall (Executed m) = False"
| "is_toolCall (LastSet i) = False"

definition example_page :: PageInfo where
  "example_page = \<lparr>title = Some ''Example'', url = Some ''https://example.com'',
                    summary = ''Example Domain'', links = []\<rparr>"

section \<open>Realtime gateway: \<open>BridgeServer\<close>\<close>

subsection \<open>Frames, sockets and the server state\<close>

datatype ChatRole = browser | assistant | user

text \<open>
  The \<open>data\<close> of a response: the empty object, or the page info \<open>getPageInfo\<close> returns
  (title, url, status, contentSummary, links).
\<close>

datatype ResData = EmptyObject | PageData "string option" "string option" nat string "Link list"

text \<open>
  The frames the server sends.  A response is \<open>{v, type: "res", id, ok, data?, error?}\<close>.
  The id of a chat frame is \<open>m-\<close> followed by a timestamp; the frame holds the timestamp.
\<close>

datatype Frame =
    Res (res_v: nat) (res_id: string) (res_ok: bool) (res_data: "ResData option")
        (res_error: "string option")
  | Chat nat nat ChatRole string nat
  | Evt nat string EventData nat

fun is_Res :: "Frame \<Rightarrow> bool" where
  "is_Res (Res v i k d e) = True"
| "is_Res (Chat v i r t ts) = False"
| "is_Res (Evt v n d ts) = False"

datatype ReadyState = CONNECTING | OPEN | CLOSING | CLOSED

text \<open>
  A socket object: its ready state and what was done to it: the frames handed to
  \<open>ws.send\<close>, the calls of \<open>ws.close(code, reason)\<close>, whether \<open>ws.terminate()\<close> was
  called and how many times \<open>ws.ping()\<close> was.
\<close>

record WebSocket =
  readyState :: ReadyState
  sent :: "Frame list"
  closeCalls :: "(nat \<times> string) list"
  terminated :: bool
  pings :: nat

text \<open>The calls the server makes on the LLM client.\<close>

datatype LLMCall = RemoveQrMessages | SetOfflineMode bool | SendChatMessage string nat

text \<open>
  The server: the set \<open>clients\<close> in insertion order (sockets are named by numbers), the
  weak map \<open>connectionAlive\<close>, the socket objects, which sockets have the pong, message
  and close listeners installed, the \<open>bridge-connected\<close> notices sent to the renderer and
  the calls made on the LLM client.
\<close>

record BridgeServer =
  clients :: "nat list"
  connectionAlive :: "nat \<Rightarrow> bool option"
  sockets :: "nat \<Rightarrow> WebSocket"
  listeners :: "nat \<Rightarrow> bool"
  rendererNotices :: "bool list"
  llmCalls :: "LLMCall list"

definition Set_add :: "nat \<Rightarrow> nat list \<Rightarrow> nat list" where
  "Set_add x xs = (if x \<in> set xs then xs else xs @ [x])"

definition Set_delete :: "nat \<Rightarrow> nat list \<Rightarrow> nat list" where
  "Set_delete x xs = removeAll x xs"

record Tab =
  tab_id :: string
  tab_title :: string
  tab_url :: string

text \<open>What the LLM client can do to the bridge while one of its methods runs.\<close>

datatype EmitterCall = EmitChat ChatRole string | EmitEvent string EventData

text \<open>
  What a handler of the server reads from outside: the signing secret of the environment,
  what \<open>jwt.verify(token, secret)\<close> does now (\<open>None\<close>: it returns; \<open>Some e\<close>: it throws),
  the window's tabs, the page inspector, the two methods of the LLM client (the bridge
  calls they make, then whether they throw) and the clock.
\<close>

record BridgeEnv =
  BRIDGE_JWT_SECRET :: "string option"
  jwt_verify :: "string \<Rightarrow> string \<Rightarrow> js_error option"
  window_activeTab :: "Tab option"
  window_getTab :: "string \<Rightarrow> Tab option"
  inspector_getInfoForTab :: "Tab \<Rightarrow> js_error + PageInfo"
  llm_setOfflineMode :: "bool \<Rightarrow> EmitterCall list \<times> js_error option"
  llm_sendChatMessage :: "string \<Rightarrow> EmitterCall list \<times> js_error option"
  Date_now :: nat

subsection \<open>Sending\<close>

text \<open>\<open>try { ws.send(JSON.stringify(payload)) } catch {}\<close>: the frame is handed to the socket.\<close>

definition send :: "nat \<Rightarrow> Frame \<Rightarrow> BridgeServer \<Rightarrow> BridgeServer" where
  "send ws payload s =
     s\<lparr>sockets := (sockets s)(ws := (sockets s ws)\<lparr>sent := sent (sockets s ws) @ [payload]\<rparr>)\<rparr>"

fun emitAll_loop :: "nat list \<Rightarrow> Frame \<Rightarrow> BridgeServer \<Rightarrow> BridgeServer" where
  "emitAll_loop [] obj s = s"
| "emitAll_loop (c # cs) obj s =
     emitAll_loop cs obj (if readyState (sockets s c) = OPEN then send c obj s else s)"

definition emitAll :: "Frame \<Rightarrow> BridgeServer \<Rightarrow> BridgeServer" where
  "emitAll obj s = emitAll_loop (clients s) obj s"

definition emitChat :: "nat \<Rightarrow> ChatRole \<Rightarrow> string \<Rightarrow> BridgeServer \<Rightarrow> BridgeServer" where
  "emitChat now r txt s = emitAll (Chat 1 now r txt now) s"

definition emitEvent :: "nat \<Rightarrow> string \<Rightarrow> EventData \<Rightarrow> BridgeServer \<Rightarrow> BridgeServer" where
  "emitEvent now n d s = emitAll (Evt 1 n d now) s"

definition broadcastActiveTab :: "nat \<Rightarrow> string \<Rightarrow> string \<Rightarrow> BridgeServer \<Rightarrow> BridgeServer" where
  "broadcastActiveTab now u tabId s = emitEvent now ''activeTab'' (ActiveTabData (Some tabId) u) s"

definition notifyRendererConnected :: "bool \<Rightarrow> BridgeServer \<Rightarrow> BridgeServer" where
  "notifyRendererConnected connected s = s\<lparr>rendererNotices := rendererNotices s @ [connected]\<rparr>"

fun emitter_call :: "nat \<Rightarrow> EmitterCall \<Rightarrow> BridgeServer \<Rightarrow> BridgeServer" where
  "emitter_call now (EmitChat r txt) s = emitChat now r txt s"
| "emitter_call now (EmitEvent n d) s = emitEvent now n d s"

fun emitter_calls :: "nat \<Rightarrow> EmitterCall list \<Rightarrow> BridgeServer \<Rightarrow> BridgeServer" where
  "emitter_calls now [] s = s"
| "emitter_calls now (c # cs) s = emitter_calls now cs (emitter_call now c s)"

subsection \<open>Authentication and admission\<close>

definition is_space :: "char \<Rightarrow> bool" where
  "is_space c = (c \<in> set [CHR 0x09, CHR 0x0A, CHR 0x0B, CHR 0x0C, CHR 0x0D, CHR '' ''])"

definition trim :: "string \<Rightarrow> string" where
  "trim s = rev (dropWhile is_space (rev (dropWhile is_space s)))"

text \<open>\<open>s.split(",")\<close>: the empty string gives one empty part.\<close>

fun split_on :: "char \<Rightarrow> string \<Rightarrow> string list" where
  "split_on d [] = [[]]"
| "split_on d (c # cs) =
     (if c = d then [] # split_on d cs
      else (case split_on d cs of [] \<Rightarrow> [[c]] | x # xs \<Rightarrow> (c # x) # xs))"

text \<open>\<open>parts[i]\<close>: \<open>undefined\<close> past the end.\<close>

definition index_opt :: "'a list \<Rightarrow> nat \<Rightarrow> 'a option" where
  "index_opt xs i = (if i < length xs then Some (xs ! i) else None)"

text \<open>
  The first lines of \<open>authOk\<close>: the header \<open>sec-websocket-protocol\<close> is split at the commas,
  the parts are trimmed, the third part is the token; what is verified is
  \<open>String(token || "")\<close>.
\<close>

definition bearer_token :: "string option \<Rightarrow> string" where
  "bearer_token proto =
     (let parts = map trim (split_on CHR '','' (or_default proto []));
          token = index_opt parts 2
      in or_default token [])"

definition ws_close :: "nat \<Rightarrow> string \<Rightarrow> WebSocket \<Rightarrow> WebSocket" where
  "ws_close code why w =
     w\<lparr>closeCalls := closeCalls w @ [(code, why)],
       readyState := (if readyState w = CLOSED then CLOSED else CLOSING)\<rparr>"

definition authOk :: "BridgeEnv \<Rightarrow> string option \<Rightarrow> nat \<Rightarrow> BridgeServer \<Rightarrow> bool \<times> BridgeServer" where
  "authOk env proto ws s =
     (let secret = or_default (BRIDGE_JWT_SECRET env) ''dev-secret''
      in case jwt_verify env (bearer_token proto) secret of
           None \<Rightarrow> (True, s)
         | Some e \<Rightarrow>
             (False, s\<lparr>sockets := (sockets s)(ws := ws_close 4001 ''unauthorized'' (sockets s ws))\<rparr>))"

text \<open>The handler of the server's \<open>connection\<close> event.\<close>

definition on_connection :: "BridgeEnv \<Rightarrow> string option \<Rightarrow> nat \<Rightarrow> BridgeServer \<Rightarrow> BridgeServer" where
  "on_connection env proto ws s =
     (case authOk env proto ws s of
        (False, s1) \<Rightarrow> s1
      | (True, s1) \<Rightarrow>
          (let s2 = s1\<lparr>clients := Set_add ws (clients s1)\<rparr>;
               s3 = s2\<lparr>connectionAlive := (connectionAlive s2)(ws \<mapsto> True)\<rparr>;
               s4 = s3\<lparr>llmCalls := llmCalls s3 @ [RemoveQrMessages]\<rparr>;
               s5 = notifyRendererConnected True s4;
               s6 = (case window_activeTab env of
                       None \<Rightarrow> s5
                     | Some active \<Rightarrow> broadcastActiveTab (Date_now env) (tab_url active) (tab_id active) s5)
           in s6\<lparr>listeners := (listeners s6)(ws := True)\<rparr>))"

text \<open>The \<open>pong\<close> and \<open>close\<close> listeners of an admitted socket.\<close>

definition on_pong :: "nat \<Rightarrow> BridgeServer \<Rightarrow> BridgeServer" where
  "on_pong ws s = s\<lparr>connectionAlive := (connectionAlive s)(ws \<mapsto> True)\<rparr>"

definition on_close :: "nat \<Rightarrow> BridgeServer \<Rightarrow> BridgeServer" where
  "on_close ws s =
     (let s1 = s\<lparr>clients := Set_delete ws (clients s)\<rparr>
      in if length (clients s1) = 0 then notifyRendererConnected False s1 else s1)"

subsection \<open>Heartbeat\<close>

text \<open>
  The body of the interval callback for one socket, and the loop over the set.  Only the
  current element is ever deleted, so the loop visits the sockets that were in the set
  when the callback started.
\<close>

definition heartbeat_one :: "nat \<Rightarrow> BridgeServer \<Rightarrow> BridgeServer" where
  "heartbeat_one ws s =
     (if connectionAlive s ws = Some False then
        s\<lparr>sockets := (sockets s)(ws := (sockets s ws)\<lparr>terminated := True,
                             readyState := (if readyState (sockets s ws) = CLOSED then CLOSED else CLOSING)\<rparr>),
          clients := Set_delete ws (clients s)\<rparr>
      else
        s\<lparr>connectionAlive := (connectionAlive s)(ws \<mapsto> False),
          sockets := (sockets s)(ws := (sockets s ws)\<lparr>pings := pings (sockets s ws) + 1\<rparr>)\<rparr>)"

fun heartbeat_loop :: "nat list \<Rightarrow> BridgeServer \<Rightarrow> BridgeServer" where
  "heartbeat_loop [] s = s"
| "heartbeat_loop (ws # rest) s = heartbeat_loop rest (heartbeat_one ws s)"

definition heartbeat :: "BridgeServer \<Rightarrow> BridgeServer" where
  "heartbeat s = heartbeat_loop (clients s) s"

subsection \<open>Command dispatch\<close>

text \<open>
  A command \<open>{v?, type: "cmd", id, name, args?}\<close>.  Of the arguments the handler reads
  \<open>tabId\<close>, \<open>key\<close> and \<open>text\<close> (strings when present) and the truth value of \<open>value\<close>.
\<close>

record CmdArgs =
  args_tabId :: "string option"
  args_key :: "string option"
  args_value :: bool
  args_text :: "string option"

record BridgeCommand =
  cmd_v :: "nat option"
  cmd_id :: string
  cmd_name :: string
  cmd_args :: CmdArgs

text \<open>The dash and the ellipsis of the chat summary, as the source file spells them.\<close>

definition em_dash :: string where
  "em_dash = [CHR 0xE2, CHR 0x80, CHR 0x94]"

definition ellipsis :: string where
  "ellipsis = [CHR 0xE2, CHR 0x80, CHR 0xA6]"

definition getPageInfo :: "BridgeEnv \<Rightarrow> string \<Rightarrow> js_error + ResData" where
  "getPageInfo env tabId =
     (case (if tabId \<noteq> [] then window_getTab env tabId else window_activeTab env) of
        None \<Rightarrow> Inl (Error ''No tab'')
      | Some tab \<Rightarrow>
          (case inspector_getInfoForTab env tab of
             Inl e \<Rightarrow> Inl e
           | Inr info \<Rightarrow> Inr (PageData (title info) (url info) 200 (summary info) (links info))))"

fun page_chat_text :: "ResData \<Rightarrow> string" where
  "page_chat_text (PageData t u st contentSummary ls) =
     (case t of None \<Rightarrow> ''(untitled)'' | Some x \<Rightarrow> x) @ '' '' @ em_dash @ '' ''
       @ take 140 contentSummary @ ellipsis"
| "page_chat_text EmptyObject = []"

text \<open>
  \<open>handleCmd\<close>.  The \<open>switch\<close> is inside a \<open>try\<close>; whatever is thrown there is answered by
  the \<open>catch\<close> with one response of \<open>ok: false\<close>.  The handler runs here without another
  handler in between.
\<close>

definition handleCmd :: "BridgeEnv \<Rightarrow> BridgeCommand \<Rightarrow> nat \<Rightarrow> BridgeServer \<Rightarrow> BridgeServer" where
  "handleCmd env msg ws s =
     (if cmd_name msg = ''getPageInfo'' then
        (case getPageInfo env (or_default (args_tabId (cmd_args msg)) []) of
           Inl e \<Rightarrow> send ws (Res 1 (cmd_id msg) False None (Some (error_text e))) s
         | Inr d \<Rightarrow>
             emitChat (Date_now env) browser (page_chat_text d)
               (send ws (Res 1 (cmd_id msg) True (Some d) None) s))
      else if cmd_name msg = ''setFeature'' then
        (let key = or_default (args_key (cmd_args msg)) []
         in if key = ''offlineMode'' then
              (let v = args_value (cmd_args msg);
                   s1 = s\<lparr>llmCalls := llmCalls s @ [SetOfflineMode v]\<rparr>;
                   s2 = emitter_calls (Date_now env) (fst (llm_setOfflineMode env v)) s1
               in case snd (llm_setOfflineMode env v) of
                    Some e \<Rightarrow> send ws (Res 1 (cmd_id msg) False None (Some (error_text e))) s2
                  | None \<Rightarrow>
                      send ws (Res 1 (cmd_id msg) True (Some EmptyObject) None)
                        (emitEvent (Date_now env) ''featureState'' (FeatureStateData v) s2))
            else send ws (Res 1 (cmd_id msg) True (Some EmptyObject) None) s)
      else if cmd_name msg = ''sendChat'' then
        (let txt = or_default (args_text (cmd_args msg)) [];
             s1 = emitChat (Date_now env) user txt s;
             s2 = s1\<lparr>llmCalls := llmCalls s1 @ [SendChatMessage txt (Date_now env)]\<rparr>;
             s3 = emitter_calls (Date_now env) (fst (llm_sendChatMessage env txt)) s2
         in case snd (llm_sendChatMessage env txt) of
              Some e \<Rightarrow> send ws (Res 1 (cmd_id msg) False None (Some (error_text e))) s3
            | None \<Rightarrow> send ws (Res 1 (cmd_id msg) True (Some EmptyObject) None) s3)
      else send ws (Res 1 (cmd_id msg) False None (Some ''Unknown command'')) s)"

text \<open>
  An inbound frame after \<open>JSON.parse\<close> and the test \<open>msg?.type === "cmd"\<close>: text that does
  not parse, a value that is not a command, or a command.
\<close>

datatype Incoming = NotJSON | NotCmd | Cmd BridgeCommand

fun onMessage :: "BridgeEnv \<Rightarrow> nat \<Rightarrow> Incoming \<Rightarrow> BridgeServer \<Rightarrow> BridgeServer" where
  "onMessage env ws NotJSON s = s"
| "onMessage env ws NotCmd s = s"
| "onMessage env ws (Cmd msg) s = handleCmd env msg ws s"

subsection \<open>The server as a machine over its events\<close>

text \<open>
  The events of a running server: a connection arrives on a socket with its
  \<open>sec-websocket-protocol\<close> header, a pong, a frame or the close of a socket, and the
  heartbeat timer.  The listeners of a socket exist once it has been admitted.
\<close>

datatype ServerEvent =
    Connection nat "string option"
  | Pong nat
  | Message nat Incoming
  | Close nat
  | Heartbeat

fun step :: "BridgeEnv \<Rightarrow> ServerEvent \<Rightarrow> BridgeServer \<Rightarrow> BridgeServer" where
  "step env (Connection ws proto) s = on_connection env proto ws s"
| "step env (Pong ws) s = (if listeners s ws then on_pong ws s else s)"
| "step env (Message ws raw) s = (if listeners s ws then onMessage env ws raw s else s)"
| "step env (Close ws) s =
     (let s1 = s\<lparr>sockets := (sockets s)(ws := (sockets s ws)\<lparr>readyState := CLOSED\<rparr>)\<rparr>
      in if listeners s1 ws then on_close ws s1 else s1)"
| "step env Heartbeat s = heartbeat s"

fun run :: "(BridgeEnv \<times> ServerEvent) list \<Rightarrow> BridgeServer \<Rightarrow> BridgeServer" where
  "run [] s = s"
| "run ((env, ev) # evs) s = run evs (step env ev s)"

text \<open>A fresh socket, a server without connections, and an environment for the examples.\<close>

definition new_socket :: WebSocket where
  "new_socket = \<lparr>readyState = OPEN, sent = [], closeCalls = [], terminated = False, pings = 0\<rparr>"

definition new_BridgeServer :: BridgeServer where
  "new_BridgeServer =
     \<lparr>clients = [], connectionAlive = (\<lambda>ws. None), sockets = (\<lambda>ws. new_socket),
      listeners = (\<lambda>ws. False), rendererNotices = [], llmCalls = []\<rparr>"

text \<open>
  The checks of \<open>jwt.verify\<close> of the package \<open>jsonwebtoken\<close>, which is not part of this
  repository, as its documentation gives them, for the examples: the empty token and a
  token that does not decode are refused, then a wrong signature, then a token whose
  \<open>nbf\<close> is after the clock, then a token whose \<open>exp\<close> is not after the clock.  The
  decoding and the signature check are given.
\<close>

record JwtPayload =
  iat :: "nat option"
  nbf :: "nat option"
  exp :: "nat option"

definition jsonwebtoken_verify ::
  "(string \<Rightarrow> JwtPayload option) \<Rightarrow> (string \<Rightarrow> string \<Rightarrow> bool) \<Rightarrow> nat
     \<Rightarrow> string \<Rightarrow> string \<Rightarrow> js_error option" where
  "jsonwebtoken_verify decode signature_ok clock token secret =
     (if token = [] then Some (Error ''jwt must be provided'')
      else case decode token of
             None \<Rightarrow> Some (Error ''jwt malformed'')
           | Some p \<Rightarrow>
               if \<not> signature_ok token secret then Some (Error ''invalid signature'')
               else if (case nbf p of None \<Rightarrow> False | Some n \<Rightarrow> clock < n)
                 then Some (Error ''jwt not active'')
               else if (case exp p of None \<Rightarrow> False | Some x \<Rightarrow> x \<le> clock)
                 then Some (Error ''jwt expired'')
               else None)"

definition example_decode :: "string \<Rightarrow> JwtPayload option" where
  "example_decode token =
     (if token = ''tok-100-400'' then Some \<lparr>iat = Some 100, nbf = Some 100, exp = Some 400\<rparr>
      else None)"

definition example_env :: "nat \<Rightarrow> BridgeEnv" where
  "example_env clock =
     \<lparr>BRIDGE_JWT_SECRET = None,
      jwt_verify = jsonwebtoken_verify example_decode (\<lambda>token secret. secret = ''dev-secret'') clock,
      window_activeTab = Some \<lparr>tab_id = ''t1'', tab_title = ''Example'', tab_url = ''https://example.com''\<rparr>,
      window_getTab = (\<lambda>i. None),
      inspector_getInfoForTab = (\<lambda>t. Inl (Error [])),
      llm_setOfflineMode = (\<lambda>v. ([], None)),
      llm_sendChatMessage = (\<lambda>t. ([EmitChat assistant ''hi''], None)),
      Date_now = clock * 1000\<rparr>"

subsection \<open>Notions for the statements\<close>

text \<open>The responses among the frames handed to a socket.\<close>

definition responses :: "BridgeServer \<Rightarrow> nat \<Rightarrow> Frame list" where
  "responses s w = filter is_Res (sent (sockets s w))"

text \<open>A step that sends no response and leaves the connections as they are.\<close>

definition quiet :: "BridgeServer \<Rightarrow> BridgeServer \<Rightarrow> bool" where
  "quiet s s' =
     (clients s' = clients s \<and> connectionAlive s' = connectionAlive s \<and> listeners s' = listeners s
      \<and> (\<forall>w. responses s' w = responses s w
             \<and> readyState (sockets s' w) = readyState (sockets s w)
             \<and> closeCalls (sockets s' w) = closeCalls (sockets s w)
             \<and> terminated (sockets s' w) = terminated (sockets s w)
             \<and> pings (sockets s' w) = pings (sockets s w)))"

text \<open>A step that sends the response \<open>r\<close> on \<open>ws\<close> and is quiet otherwise.\<close>

definition answers :: "nat \<Rightarrow> Frame \<Rightarrow> BridgeServer \<Rightarrow> BridgeServer \<Rightarrow> bool" where
  "answers ws r s s' =
     (clients s' = clients s \<and> connectionAlive s' = connectionAlive s \<and> listeners s' = listeners s
      \<and> (\<forall>w. responses s' w = responses s w @ (if w = ws then [r] else [])
             \<and> readyState (sockets s' w) = readyState (sockets s w)
             \<and> closeCalls (sockets s' w) = closeCalls (sockets s w)
             \<and> terminated (sockets s' w) = terminated (sockets s w)
             \<and> pings (sockets s' w) = pings (sockets s w)))"

text \<open>The response a command gets: the frame the switch or the catch hands to \<open>send\<close>.\<close>

definition response_of :: "BridgeEnv \<Rightarrow> BridgeCommand \<Rightarrow> Frame" where
  "response_of env msg = 
     (if cmd_name msg = ''getPageInfo'' then
        (case getPageInfo env (or_default (args_tabId (cmd_args msg)) []) of
           Inl e \<Rightarrow> Res 1 (cmd_id msg) False None (Some (error_text e))
         | Inr d \<Rightarrow> Res 1 (cmd_id msg) True (Some d) None)
      else if cmd_name msg = ''setFeature'' then
        (if or_default (args_key (cmd_args msg)) [] = ''offlineMode'' then
           (case snd (llm_setOfflineMode env (args_value (cmd_args msg))) of
              Some e \<Rightarrow> Res 1 (cmd_id msg) False None (Some (error_text e))
            | None \<Rightarrow> Res 1 (cmd_id msg) True (Some EmptyObject) None)
         else Res 1 (cmd_id msg) True (Some EmptyObject) None)
      else if cmd_name msg = ''sendChat'' then
        (case snd (llm_sendChatMessage env (or_default (args_text (cmd_args msg)) [])) of
           Some e \<Rightarrow> Res 1 (cmd_id msg) False None (Some (error_text e))
         | None \<Rightarrow> Res 1 (cmd_id msg) True (Some EmptyObject) None)
      else Res 1 (cmd_id msg) False None (Some ''Unknown command''))"

text \<open>An event that admits \<open>ws\<close>: a connection on \<open>ws\<close> whose token verifies.\<close>

fun admits :: "nat \<Rightarrow> BridgeEnv \<times> ServerEvent \<Rightarrow> bool" where
  "admits ws (env, Connection w proto) =
     (w = ws \<and> jwt_verify env (bearer_token proto)
                 (or_default (BRIDGE_JWT_SECRET env) ''dev-secret'') = None)"
| "admits ws (env, Pong w) = False"
| "admits ws (env, Message w raw) = False"
| "admits ws (env, Close w) = False"
| "admits ws (env, Heartbeat) = False"

text \<open>
  An event that can bring \<open>ws\<close> back to life: its pong, or a connection on it.
\<close>

fun revives :: "nat \<Rightarrow> BridgeEnv \<times> ServerEvent \<Rightarrow> bool" where
  "revives ws (env, Connection w proto) = (w = ws)"
| "revives ws (env, Pong w) = (w = ws)"
| "revives ws (env, Message w raw) = False"
| "revives ws (env, Close w) = False"
| "revives ws (env, Heartbeat) = False"

text \<open>The socket, if it is in the set, has been probed and has not answered.\<close>

definition pending :: "nat \<Rightarrow> BridgeServer \<Rightarrow> bool" where
  "pending ws s = (distinct (clients s) \<and> (ws \<in> set (clients s) \<longrightarrow> connectionAlive s ws = Some False))"

text \<open>A command frame with a given name, and the server after one authorized connection
  (socket 7, token valid from 100 to 400, clock at 200).\<close>

definition example_cmd :: "string \<Rightarrow> BridgeCommand" where
  "example_cmd n =
     \<lparr>cmd_v = Some 1, cmd_id = ''c1'', cmd_name = n,
      cmd_args = \<lparr>args_tabId = None, args_key = None, args_value = False, args_text = None\<rparr>\<rparr>"

definition connected_server :: BridgeServer where
  "connected_server =
     step (example_env 200) (Connection 7 (Some ''blueberry,v1,tok-100-400'')) new_BridgeServer"

section \<open>Orchestration: \<open>LLMClient\<close> and \<open>Streamer\<close>\<close>

subsection \<open>The regular expressions of the client\<close>




















subsection \<open>The client\<close>

text \<open>Where a generation call is made: the turn itself, the tool-free follow-up, or the
  retry after a locale failure.\<close>

datatype CallSite = MainCall | FollowUpCall | RetryCall

text \<open>
  The client.  The fields that the model manager and the message store also have carry
  the prefix \<open>client_\<close>.  \<open>hasWindow\<close> says whether \<open>setWindow\<close> has given the client its
  window and inspector, \<open>bridgeEmitter\<close> whether a bridge is attached.  The outputs are
  recorded: the calls on the bridge emitter, the \<open>chat-response\<close> messages (message id,
  content, \<open>isComplete\<close>), the \<open>offline-mode-updated\<close> notices, the generation calls made
  on a provider (call site and provider) and the tools that were run.
\<close>

record LLMClient =
  hasWindow :: bool
  bridgeEmitter :: bool
  modelManager :: ModelManager
  messageStore :: MessageStore
  lastToolResult :: "PageInfo option"
  client_baseOnlineProvider :: OnlineProvider
  client_provider :: LLMProvider
  client_modelName :: "string option"
  client_model :: "LanguageModel option"
  client_messages :: "CoreMessage list"
  client_offlineMode :: bool
  client_appleAvailable :: bool
  client_appleUnavailableReason :: "string option"
  didAppleLocaleFallback :: bool
  bridgeCalls :: "EmitterCall list"
  chatResponses :: "(string \<times> string \<times> bool) list"
  offlineNotices :: "bool list"
  generationCalls :: "(CallSite \<times> LLMProvider) list"
  toolInvocations :: "string list"

text \<open>
  What a provider does during one generation call, as the client sees it: text chunks and
  tool calls in order, and then either the end of the stream or a thrown error.
\<close>

datatype GenStep = Chunk string | UseOpenUrl string | UseGetPageInfo

record GenScript =
  steps :: "GenStep list"
  thrown :: "js_error option"

text \<open>
  What a turn reads from outside: the environment of the model manager, the answer of the
  connectivity probe, the window's active tab, the page inspector, and what the provider
  does in the \<open>n\<close>-th generation call of this client.  The prompt handed to the provider is
  not part of the model.
\<close>

record TurnEnv =
  sys :: Env
  isOnline :: bool
  activeTab :: "Tab option"
  openUrlAndGetInfo :: "string \<Rightarrow> js_error + PageInfo"
  getActivePageInfo :: "js_error + PageInfo"
  generation :: "nat \<Rightarrow> GenScript"


definition client_emitEvent :: "Event \<Rightarrow> LLMClient \<Rightarrow> LLMClient" where
  "client_emitEvent ev c =
     (if bridgeEmitter c then c\<lparr>bridgeCalls := bridgeCalls c @ [EmitEvent (fst ev) (snd ev)]\<rparr> else c)"

definition syncFromManager :: "Env \<Rightarrow> LLMClient \<Rightarrow> LLMClient" where
  "syncFromManager env c =
     c\<lparr>client_model := model (modelManager c),
       client_provider := provider (modelManager c),
       client_modelName := getModelName env (modelManager c),
       client_offlineMode := offlineMode (modelManager c),
       client_appleUnavailableReason := appleUnavailableReason (modelManager c),
       client_appleAvailable := (model (modelManager c) \<noteq> None)\<rparr>"





definition client_setOfflineMode :: "Env \<Rightarrow> bool \<Rightarrow> LLMClient \<Rightarrow> bool \<times> LLMClient" where
  "client_setOfflineMode env enabled c =
     (let r = setOfflineMode env enabled (modelManager c)
      in (fst r, syncFromManager env (c\<lparr>modelManager := snd r\<rparr>)))"









subsection \<open>Generation\<close>





text \<open>
  \<open>Streamer.consume\<close>.  One round of its loop, on the pair of \<open>finalText\<close> and \<open>first\<close>:
  an empty chunk is skipped, the first chunk opens the stream, a later one is appended.
  After the loop the stream is closed if it was opened, and \<open>finalText\<close> is returned.
\<close>

definition consume_chunk ::
  "string \<Rightarrow> string \<times> bool \<Rightarrow> MessageStore \<Rightarrow> js_error + (string \<times> bool) \<times> MessageStore" where
  "consume_chunk ch acc st =
     (if ch = [] then Inr (acc, st)
      else if snd acc then Inr ((fst acc @ ch, False), beginStream ch st)
      else (case appendStream ch st of
              Inl e \<Rightarrow> Inl e
            | Inr st' \<Rightarrow> Inr ((fst acc @ ch, False), st')))"

fun consume_loop ::
  "string list \<Rightarrow> string \<times> bool \<Rightarrow> MessageStore \<Rightarrow> js_error + (string \<times> bool) \<times> MessageStore" where
  "consume_loop [] acc st = Inr (acc, st)"
| "consume_loop (ch # rest) acc st =
     (case consume_chunk ch acc st of
        Inl e \<Rightarrow> Inl e
      | Inr (acc', st') \<Rightarrow> consume_loop rest acc' st')"

definition consume :: "string list \<Rightarrow> MessageStore \<Rightarrow> js_error + string \<times> MessageStore" where
  "consume textStream st =
     (case consume_loop textStream ([], True) st of
        Inl e \<Rightarrow> Inl e
      | Inr (acc, st') \<Rightarrow> Inr (fst acc, if \<not> snd acc then endStream st' else st'))"



subsection \<open>A turn\<close>














subsection \<open>Notions for the statements\<close>

text \<open>Two clients that agree on everything but the conversation, the tool result and the
  bridge calls.\<close>

definition same_control :: "LLMClient \<Rightarrow> LLMClient \<Rightarrow> bool" where
  "same_control c c' =
     (generationCalls c' = generationCalls c
      \<and> didAppleLocaleFallback c' = didAppleLocaleFallback c
      \<and> chatResponses c' = chatResponses c
      \<and> hasWindow c' = hasWindow c
      \<and> modelManager c' = modelManager c
      \<and> client_provider c' = client_provider c
      \<and> client_model c' = client_model c
      \<and> client_appleAvailable c' = client_appleAvailable c
      \<and> client_baseOnlineProvider c' = client_baseOnlineProvider c)"








chapter \<open>The properties\<close>

section \<open>Properties of the conversation log\<close>

lemma beginStream_fields:
  "messages (beginStream c st) = messages st @ [\<lparr>role = Assistant, content = Text c\<rparr>]"
  "streamingIndex (beginStream c st) = Some (length (messages st))"
  by (simp_all add: beginStream_def bridgeSafeChat_def emitToRenderer_def)

lemma appendStream_open:
  assumes "streamingIndex st = Some (length pre)"
    and "messages st = pre @ [\<lparr>role = Assistant, content = Text acc\<rparr>]"
  shows "\<exists>st'. appendStream c st = Inr st'
           \<and> streamingIndex st' = Some (length pre)
           \<and> messages st' = pre @ [\<lparr>role = Assistant, content = Text (acc @ c)\<rparr>]"
  using assms
  by (simp add: appendStream_def bridgeSafeChat_def emitToRenderer_def Let_def)

lemma appendStreams_open:
  assumes "streamingIndex st = Some (length pre)"
    and "messages st = pre @ [\<lparr>role = Assistant, content = Text acc\<rparr>]"
  shows "\<exists>st'. appendStreams cs st = Inr st'
           \<and> streamingIndex st' = Some (length pre)
           \<and> messages st' = pre @ [\<lparr>role = Assistant, content = Text (acc @ concat cs)\<rparr>]"
  using assms
proof (induction cs arbitrary: st acc)
  case Nil
  then show ?case by simp
next
  case (Cons c cs)
  from appendStream_open[OF Cons.prems, of c] obtain st1 where
    a: "appendStream c st = Inr st1" and
    i: "streamingIndex st1 = Some (length pre)" and
    m: "messages st1 = pre @ [\<lparr>role = Assistant, content = Text (acc @ c)\<rparr>]"
    by blast
  from Cons.IH[OF i m] a show ?case by simp
qed

text \<open>
  C6. After \<open>beginStream(c0)\<close>, \<open>appendStream(c1)\<close>, ..., \<open>appendStream(cN)\<close>,
  \<open>endStream()\<close> on any store, no call has thrown, the log is the old log followed by one
  message, that message has role assistant and the content \<open>c0 + c1 + ... + cN\<close>, every
  message that was there before is unchanged, and the streaming slot is closed.
\<close>

theorem stream_calls_concat:
  "\<exists>st'. streamCalls c0 cs st = Inr st'
     \<and> messages st' = messages st @ [\<lparr>role = Assistant, content = Text (c0 @ concat cs)\<rparr>]
     \<and> role (last (messages st')) = Assistant
     \<and> content (last (messages st')) = Text (concat (c0 # cs))
     \<and> take (length (messages st)) (messages st') = messages st
     \<and> streamingIndex st' = None"
proof -
  from appendStreams_open[OF beginStream_fields(2) beginStream_fields(1), of cs c0 st]
  obtain st1 where
    a: "appendStreams cs (beginStream c0 st) = Inr st1" and
    m: "messages st1 = messages st @ [\<lparr>role = Assistant, content = Text (c0 @ concat cs)\<rparr>]"
    by blast
  have "streamCalls c0 cs st = Inr (endStream st1)"
    by (simp add: streamCalls_def a)
  moreover have "messages (endStream st1) = messages st1"
    and "streamingIndex (endStream st1) = None"
    by (simp_all add: endStream_def emitToRenderer_def)
  ultimately show ?thesis using m by simp
qed

section \<open>Properties of the provider selection\<close>

lemmas mm_defs = setOfflineMode_def init_def new_ModelManager_def initializeModel_def
  getModelName_def getInitialOfflineMode_def getBaseOnlineProvider_def getApiKey_def
  toLowerCase_def lower_char_def Let_def

lemmas env_defs = env_offline_no_apple_def env_online_no_apple_def env_apple_ok_def

lemma initializeModel_apple_model:
  "provider m = apple \<Longrightarrow>
   model (initializeModel env m) =
     (if (if appleAvailabilityChecked m then appleAvailable m
          else available (checkAppleAvailability env))
         \<and> createAppleLanguageModel env = None
      then Some AppleModel else None)"
  by (cases "createAppleLanguageModel env") (simp_all add: initializeModel_def Let_def)

lemma initializeModel_apple_reason:
  "provider m = apple \<Longrightarrow>
   appleUnavailableReason (initializeModel env m) =
         (if (if appleAvailabilityChecked m then appleAvailable m
              else available (checkAppleAvailability env))
          then (case createAppleLanguageModel env of
                  None \<Rightarrow> (if appleAvailabilityChecked m then appleUnavailableReason m
          else if reason (checkAppleAvailability env) = [] then None
          else Some (reason (checkAppleAvailability env)))
                | Some e \<Rightarrow> Some (''load-failed:'' @ (if message e = [] then ''unknown'' else message e)))
          else if appleAvailabilityChecked m then appleUnavailableReason m
          else if reason (checkAppleAvailability env) = [] then None
          else Some (reason (checkAppleAvailability env)))"
  by (cases "createAppleLanguageModel env") (simp_all add: initializeModel_def Let_def)

lemma initializeModel_keeps:
  "provider (initializeModel env m) = provider m"
  "baseOnlineProvider (initializeModel env m) = baseOnlineProvider m"
  "offlineMode (initializeModel env m) = offlineMode m"
  "modelName (initializeModel env m) = modelName m"
  by (simp_all add: initializeModel_def Let_def split: option.split OnlineProvider.split)

lemma initializeModel_online_reason:
  "provider m \<noteq> apple \<Longrightarrow>
   appleUnavailableReason (initializeModel env m) = appleUnavailableReason m"
  by (simp add: initializeModel_def Let_def split: option.split OnlineProvider.split)

lemma setOfflineMode_true_fallback:
  assumes "\<not> offlineMode m"
    and "model (initializeModel env (m\<lparr>provider := apple, modelName := None\<rparr>)) = None"
  shows "setOfflineMode env True m =
     (False, (initializeModel env
        ((initializeModel env (m\<lparr>provider := apple, modelName := None\<rparr>))
           \<lparr>provider := Online (baseOnlineProvider m),
            modelName := Some (or_default (LLM_MODEL env) (DEFAULT_MODELS (baseOnlineProvider m)))\<rparr>))
        \<lparr>offlineMode := False\<rparr>)"
  using assms
  by (simp add: setOfflineMode_def getModelName_def Let_def initializeModel_keeps)

text \<open>
  C5, the claim as stated fails.  A manager that was started in offline mode on a machine
  without the on-device model is still in offline mode, with provider \<open>apple\<close> and no
  model handle.  There \<open>setOfflineMode(true)\<close> returns at its first line: the value is
  \<open>true\<close> and the provider stays \<open>apple\<close>.
\<close>

theorem setOfflineMode_true_when_already_offline:
  "fst (setOfflineMode env_offline_no_apple True
          (init env_offline_no_apple (new_ModelManager env_offline_no_apple))) = True
   \<and> provider (snd (setOfflineMode env_offline_no_apple True
          (init env_offline_no_apple (new_ModelManager env_offline_no_apple)))) = apple
   \<and> model (snd (setOfflineMode env_offline_no_apple True
          (init env_offline_no_apple (new_ModelManager env_offline_no_apple)))) = None
   \<and> available (checkAppleAvailability env_offline_no_apple) = False"
  by (simp add: mm_defs env_defs)

text \<open>
  C5, amended.  If \<open>setOfflineMode(true)\<close> is called while the manager is in online mode
  and the on-device provider is unavailable (the availability check, cached or made now,
  reports unavailable, or the model creation throws), then the call returns \<open>false\<close>,
  the provider afterwards is the base online provider, the offline flag is \<open>false\<close>, and
  the recorded reason is: \<open>load-failed:\<close> and the message when the creation threw; the
  reason the check reported when the check was made in this call (\<open>null\<close> when that reason
  is empty); the reason recorded before when the check had been made earlier.
\<close>

theorem setOfflineMode_true_unavailable:
  assumes "\<not> offlineMode m"
    and "(if appleAvailabilityChecked m then \<not> appleAvailable m
          else \<not> available (checkAppleAvailability env))
         \<or> createAppleLanguageModel env \<noteq> None"
  shows "fst (setOfflineMode env True m) = False
     \<and> provider (snd (setOfflineMode env True m)) = Online (baseOnlineProvider m)
     \<and> offlineMode (snd (setOfflineMode env True m)) = False
     \<and> appleUnavailableReason (snd (setOfflineMode env True m)) =
         (if (if appleAvailabilityChecked m then appleAvailable m
              else available (checkAppleAvailability env))
          then (case createAppleLanguageModel env of
                  None \<Rightarrow> appleUnavailableReason m
                | Some e \<Rightarrow> Some (''load-failed:'' @ (if message e = [] then ''unknown'' else message e)))
          else if appleAvailabilityChecked m then appleUnavailableReason m
          else if reason (checkAppleAvailability env) = [] then None
          else Some (reason (checkAppleAvailability env)))"
proof -
  let ?a = "m\<lparr>provider := apple, modelName := None\<rparr>"
  have pa: "provider ?a = apple" by simp
  have none: "model (initializeModel env ?a) = None"
    using assms(2) by (auto simp add: initializeModel_apple_model[OF pa])
  note eq = setOfflineMode_true_fallback[OF assms(1) none]
  have r: "appleUnavailableReason (snd (setOfflineMode env True m)) =
           appleUnavailableReason (initializeModel env ?a)"
    by (simp add: eq initializeModel_online_reason initializeModel_keeps)
  have "appleUnavailableReason (initializeModel env ?a) =
         (if (if appleAvailabilityChecked m then appleAvailable m
              else available (checkAppleAvailability env))
          then (case createAppleLanguageModel env of
                  None \<Rightarrow> appleUnavailableReason m
                | Some e \<Rightarrow> Some (''load-failed:'' @ (if message e = [] then ''unknown'' else message e)))
          else if appleAvailabilityChecked m then appleUnavailableReason m
          else if reason (checkAppleAvailability env) = [] then None
          else Some (reason (checkAppleAvailability env)))"
    using assms(2) by (auto simp add: initializeModel_apple_reason[OF pa] split: option.split)
  with r show ?thesis
    by (simp add: eq initializeModel_keeps)
qed

theorem setOfflineMode_true_unavailable_witness:
  "\<not> offlineMode (init env_online_no_apple (new_ModelManager env_online_no_apple))
   \<and> \<not> available (checkAppleAvailability env_online_no_apple)
   \<and> fst (setOfflineMode env_online_no_apple True
            (init env_online_no_apple (new_ModelManager env_online_no_apple))) = False
   \<and> provider (snd (setOfflineMode env_online_no_apple True
            (init env_online_no_apple (new_ModelManager env_online_no_apple)))) = Online openai
   \<and> appleUnavailableReason (snd (setOfflineMode env_online_no_apple True
            (init env_online_no_apple (new_ModelManager env_online_no_apple))))
       = Some ''unavailable-or-not-installed''"
proof -
  let ?m = "init env_online_no_apple (new_ModelManager env_online_no_apple)"
  have h1: "\<not> offlineMode ?m" by (simp add: mm_defs env_defs)
  have e: "baseOnlineProvider ?m = openai" "appleAvailabilityChecked ?m = False"
    "available (checkAppleAvailability env_online_no_apple) = False"
    "reason (checkAppleAvailability env_online_no_apple) = ''unavailable-or-not-installed''"
    by (simp_all add: mm_defs env_defs)
  have h2: "(if appleAvailabilityChecked ?m then \<not> appleAvailable ?m
          else \<not> available (checkAppleAvailability env_online_no_apple))
         \<or> createAppleLanguageModel env_online_no_apple \<noteq> None"
    by (simp add: e)
  from setOfflineMode_true_unavailable[OF h1 h2] h1 show ?thesis
    by (simp add: e)
qed

text \<open>
  C10.  \<open>setOfflineMode(false)\<close> returns \<open>false\<close> in every state and environment, on the
  model manager and on the client that passes the manager's value on.  On a manager in
  offline mode it returns \<open>false\<close> both when the switch creates a cloud model handle (an
  API key is configured) and when it leaves no handle (no key): the two outcomes differ in
  the provider state only, not in the returned value.
\<close>

theorem setOfflineMode_false_returns_false:
  "fst (setOfflineMode env False m) = False
   \<and> fst (client_setOfflineMode env False c) = False
   \<and> offlineMode (init env_apple_ok (new_ModelManager env_apple_ok)) = True
   \<and> fst (setOfflineMode env_apple_ok False (init env_apple_ok (new_ModelManager env_apple_ok))) = False
   \<and> model (snd (setOfflineMode env_apple_ok False (init env_apple_ok (new_ModelManager env_apple_ok))))
       = Some (OpenAIModel ''gpt-4o-mini'')
   \<and> provider (snd (setOfflineMode env_apple_ok False (init env_apple_ok (new_ModelManager env_apple_ok))))
       = Online openai
   \<and> fst (setOfflineMode env_apple_no_key False (init env_apple_ok (new_ModelManager env_apple_ok))) = False
   \<and> model (snd (setOfflineMode env_apple_no_key False (init env_apple_ok (new_ModelManager env_apple_ok))))
       = None"
proof -
  have a: "fst (setOfflineMode env False m) = False" for env m
    by (simp add: setOfflineMode_def Let_def)
  have b: "fst (client_setOfflineMode env False c) = False"
    by (simp add: client_setOfflineMode_def Let_def a)
  have "offlineMode (init env_apple_ok (new_ModelManager env_apple_ok)) = True"
    by (simp add: mm_defs env_defs)
  moreover have "setOfflineMode env_apple_ok False (init env_apple_ok (new_ModelManager env_apple_ok))
      = (False, \<lparr>baseOnlineProvider = openai, provider = Online openai,
           modelName = Some ''gpt-4o-mini'', model = Some (OpenAIModel ''gpt-4o-mini''),
           offlineMode = False, appleAvailabilityChecked = True, appleAvailable = True,
           appleUnavailableReason = None\<rparr>)"
    by (simp add: mm_defs env_defs)
  moreover have "setOfflineMode env_apple_no_key False (init env_apple_ok (new_ModelManager env_apple_ok))
      = (False, \<lparr>baseOnlineProvider = openai, provider = Online openai,
           modelName = Some ''gpt-4o-mini'', model = None,
           offlineMode = False, appleAvailabilityChecked = True, appleAvailable = True,
           appleUnavailableReason = None\<rparr>)"
    by (simp add: mm_defs env_defs env_apple_no_key_def)
  ultimately show ?thesis using a b by simp
qed

section \<open>Properties of the tool capabilities\<close>

lemmas tool_defs = open_url_execute_def get_page_info_execute_def native_open_url_handler_def
  native_get_page_info_handler_def try_ignore_def rec_emit_def rec_setLast_def rec_inspector_def
  Let_def


text \<open>
  What \<open>get_page_info\<close> does on a page, in both bundles: the inspector runs, the result is
  stored, the \<open>toolResult\<close> event is emitted.
\<close>

lemma get_page_info_trace_example:
  "snd (get_page_info_execute rec_emit rec_setLast
          (rec_inspector ''getActivePageInfo'' (Inr example_page)) [])
     = [Executed ''getActivePageInfo'', LastSet example_page,
        Emitted (''toolResult'',
          ToolResultData ''get_page_info'' (Some ''Example'') (Some ''https://example.com'') 0)]
   \<and> snd (native_get_page_info_handler rec_emit rec_setLast
          (rec_inspector ''getActivePageInfo'' (Inr example_page)) [])
     = [Executed ''getActivePageInfo'', LastSet example_page,
        Emitted (''toolResult'',
          ToolResultNative ''get_page_info'' (Some ''Example'') (Some ''https://example.com'') 0
            ''Example Domain'' [])]"
  by (simp add: tool_defs example_page_def)



section \<open>Properties of the gateway\<close>

lemma quiet_refl: "quiet s s"
  by (simp add: quiet_def)

lemma quiet_trans: "quiet s s1 \<Longrightarrow> quiet s1 s2 \<Longrightarrow> quiet s s2"
  by (simp add: quiet_def)

lemma quiet_send: "\<not> is_Res f \<Longrightarrow> quiet s (send ws f s)"
  by (simp add: quiet_def send_def responses_def)

lemma quiet_emitAll_loop: "\<not> is_Res f \<Longrightarrow> quiet s (emitAll_loop cs f s)"
proof (induction cs arbitrary: s)
  case Nil
  then show ?case by (simp add: quiet_refl)
next
  case (Cons c cs)
  have "quiet s (if readyState (sockets s c) = OPEN then send c f s else s)"
    using Cons.prems by (simp add: quiet_send quiet_refl)
  from quiet_trans[OF this Cons.IH[OF Cons.prems]] show ?case by simp
qed

lemma quiet_emitChat: "quiet s (emitChat now r t s)"
  by (simp add: emitChat_def emitAll_def quiet_emitAll_loop)

lemma quiet_emitEvent: "quiet s (emitEvent now n d s)"
  by (simp add: emitEvent_def emitAll_def quiet_emitAll_loop)

lemma quiet_emitter_calls: "quiet s (emitter_calls now cs s)"
proof (induction cs arbitrary: s)
  case Nil
  then show ?case by (simp add: quiet_refl)
next
  case (Cons c cs)
  have "quiet s (emitter_call now c s)"
    by (cases c) (simp_all add: quiet_emitChat quiet_emitEvent)
  from quiet_trans[OF this Cons.IH] show ?case by simp
qed

lemma quiet_llmCalls: "quiet s (s\<lparr>llmCalls := x\<rparr>)"
  by (simp add: quiet_def responses_def)

lemma answers_send: "is_Res r \<Longrightarrow> answers ws r s (send ws r s)"
  by (simp add: answers_def send_def responses_def)

lemma quiet_answers: "quiet s s1 \<Longrightarrow> answers ws r s1 s2 \<Longrightarrow> answers ws r s s2"
  by (simp add: quiet_def answers_def)

lemma answers_quiet: "answers ws r s s1 \<Longrightarrow> quiet s1 s2 \<Longrightarrow> answers ws r s s2"
  by (simp add: quiet_def answers_def)

lemma handleCmd_answers: "answers ws (response_of env msg) s (handleCmd env msg ws s)"
proof -
  consider (page) "cmd_name msg = ''getPageInfo''"
    | (feature) "cmd_name msg = ''setFeature''"
    | (chat) "cmd_name msg = ''sendChat''"
    | (unknown) "cmd_name msg \<noteq> ''getPageInfo''" "cmd_name msg \<noteq> ''setFeature''"
        "cmd_name msg \<noteq> ''sendChat''"
    by blast
  then show ?thesis
  proof cases
    case page
    show ?thesis
    proof (cases "getPageInfo env (or_default (args_tabId (cmd_args msg)) [])")
      case (Inl e)
      then show ?thesis using page
        by (simp add: handleCmd_def response_of_def answers_send)
    next
      case (Inr d)
      have "answers ws (Res 1 (cmd_id msg) True (Some d) None) s
              (emitChat (Date_now env) browser (page_chat_text d)
                 (send ws (Res 1 (cmd_id msg) True (Some d) None) s))"
        by (rule answers_quiet[OF answers_send quiet_emitChat]) simp
      then show ?thesis using page Inr
        by (simp add: handleCmd_def response_of_def)
    qed
  next
    case feature
    show ?thesis
    proof (cases "or_default (args_key (cmd_args msg)) [] = ''offlineMode''")
      case False
      then show ?thesis using feature
        by (simp add: handleCmd_def response_of_def answers_send)
    next
      case True
      let ?v = "args_value (cmd_args msg)"
      let ?s1 = "s\<lparr>llmCalls := llmCalls s @ [SetOfflineMode ?v]\<rparr>"
      let ?s2 = "emitter_calls (Date_now env) (fst (llm_setOfflineMode env ?v)) ?s1"
      have q: "quiet s ?s2"
        by (rule quiet_trans[OF quiet_llmCalls quiet_emitter_calls])
      show ?thesis
      proof (cases "snd (llm_setOfflineMode env ?v)")
        case None
        have "quiet s (emitEvent (Date_now env) ''featureState'' (FeatureStateData ?v) ?s2)"
          by (rule quiet_trans[OF q quiet_emitEvent])
        from quiet_answers[OF this answers_send] show ?thesis using feature True None
          by (simp add: handleCmd_def response_of_def Let_def)
      next
        case (Some e)
        from quiet_answers[OF q answers_send] show ?thesis using feature True Some
          by (simp add: handleCmd_def response_of_def Let_def)
      qed
    qed
  next
    case chat
    let ?t = "or_default (args_text (cmd_args msg)) []"
    let ?s1 = "emitChat (Date_now env) user ?t s"
    let ?s2 = "?s1\<lparr>llmCalls := llmCalls ?s1 @ [SendChatMessage ?t (Date_now env)]\<rparr>"
    let ?s3 = "emitter_calls (Date_now env) (fst (llm_sendChatMessage env ?t)) ?s2"
    have q: "quiet s ?s3"
      by (rule quiet_trans[OF quiet_emitChat quiet_trans[OF quiet_llmCalls quiet_emitter_calls]])
    show ?thesis
    proof (cases "snd (llm_sendChatMessage env ?t)")
      case None
      from quiet_answers[OF q answers_send] show ?thesis using chat None
        by (simp add: handleCmd_def response_of_def Let_def)
    next
      case (Some e)
      from quiet_answers[OF q answers_send] show ?thesis using chat Some
        by (simp add: handleCmd_def response_of_def Let_def)
    qed
  next
    case unknown
    then show ?thesis
      by (simp add: handleCmd_def response_of_def answers_send)
  qed
qed

lemma handleCmd_keeps:
  "clients (handleCmd env msg ws s) = clients s"
  "connectionAlive (handleCmd env msg ws s) = connectionAlive s"
  "listeners (handleCmd env msg ws s) = listeners s"
  using handleCmd_answers[of ws env msg s] by (simp_all add: answers_def)

lemma onMessage_keeps:
  "clients (onMessage env ws raw s) = clients s"
  "connectionAlive (onMessage env ws raw s) = connectionAlive s"
  by (cases raw; simp add: handleCmd_keeps)+

lemma emitEvent_keeps:
  "clients (emitEvent now n d s) = clients s"
  "connectionAlive (emitEvent now n d s) = connectionAlive s"
  "listeners (emitEvent now n d s) = listeners s"
  "closeCalls (sockets (emitEvent now n d s) w) = closeCalls (sockets s w)"
  using quiet_emitEvent[of s now n d] by (simp_all add: quiet_def)

lemma authOk_cases:
  "authOk env proto ws s =
     (case jwt_verify env (bearer_token proto) (or_default (BRIDGE_JWT_SECRET env) ''dev-secret'') of
        None \<Rightarrow> (True, s)
      | Some e \<Rightarrow> (False, s\<lparr>sockets := (sockets s)(ws := ws_close 4001 ''unauthorized'' (sockets s ws))\<rparr>))"
  by (simp add: authOk_def Let_def)

lemma on_connection_rejected:
  assumes "jwt_verify env (bearer_token proto) (or_default (BRIDGE_JWT_SECRET env) ''dev-secret'') = Some e"
  shows "on_connection env proto ws s =
           s\<lparr>sockets := (sockets s)(ws := ws_close 4001 ''unauthorized'' (sockets s ws))\<rparr>"
  using assms by (simp add: on_connection_def authOk_cases)

lemma on_connection_clients:
  "clients (on_connection env proto ws s) =
     (if jwt_verify env (bearer_token proto) (or_default (BRIDGE_JWT_SECRET env) ''dev-secret'') = None
      then Set_add ws (clients s) else clients s)"
  by (simp add: on_connection_def authOk_cases Let_def notifyRendererConnected_def
      broadcastActiveTab_def emitEvent_keeps split: option.split)

lemma on_connection_alive:
  "connectionAlive (on_connection env proto ws s) w =
     (if jwt_verify env (bearer_token proto) (or_default (BRIDGE_JWT_SECRET env) ''dev-secret'') = None
         \<and> w = ws
      then Some True else connectionAlive s w)"
  by (simp add: on_connection_def authOk_cases Let_def notifyRendererConnected_def
      broadcastActiveTab_def emitEvent_keeps split: option.split)

lemma on_close_clients: "clients (on_close ws s) = removeAll ws (clients s)"
  by (simp add: on_close_def Let_def Set_delete_def notifyRendererConnected_def)

lemma on_close_alive: "connectionAlive (on_close ws s) = connectionAlive s"
  by (simp add: on_close_def Let_def Set_delete_def notifyRendererConnected_def)

lemma step_Close_fields:
  "clients (step env (Close ws) s) = (if listeners s ws then removeAll ws (clients s) else clients s)"
  "connectionAlive (step env (Close ws) s) = connectionAlive s"
  by (simp_all add: Let_def on_close_clients on_close_alive)

lemma heartbeat_one_fields:
  "clients (heartbeat_one x s) =
     (if connectionAlive s x = Some False then removeAll x (clients s) else clients s)"
  "connectionAlive (heartbeat_one x s) w =
     (if w = x \<and> connectionAlive s x \<noteq> Some False then Some False else connectionAlive s w)"
  "terminated (sockets (heartbeat_one x s) w) =
     (terminated (sockets s w) \<or> (w = x \<and> connectionAlive s x = Some False))"
  "pings (sockets (heartbeat_one x s) w) =
     pings (sockets s w) + (if w = x \<and> connectionAlive s x \<noteq> Some False then 1 else 0)"
  by (simp_all add: heartbeat_one_def Set_delete_def)

lemma heartbeat_loop_fields:
  assumes "distinct xs"
  shows "clients (heartbeat_loop xs s) =
           filter (\<lambda>w. \<not> (w \<in> set xs \<and> connectionAlive s w = Some False)) (clients s)
       \<and> (\<forall>w. connectionAlive (heartbeat_loop xs s) w =
             (if w \<in> set xs \<and> connectionAlive s w \<noteq> Some False then Some False
              else connectionAlive s w))
       \<and> (\<forall>w. terminated (sockets (heartbeat_loop xs s) w) =
             (terminated (sockets s w) \<or> (w \<in> set xs \<and> connectionAlive s w = Some False)))
       \<and> (\<forall>w. pings (sockets (heartbeat_loop xs s) w) =
             pings (sockets s w)
               + (if w \<in> set xs \<and> connectionAlive s w \<noteq> Some False then 1 else 0))"
  using assms
proof (induction xs arbitrary: s)
  case Nil
  then show ?case by simp
next
  case (Cons x xs)
  then have d: "distinct xs" and nx: "x \<notin> set xs" by simp_all
  note ih = Cons.IH[OF d, of "heartbeat_one x s"]
  have c: "clients (heartbeat_loop (x # xs) s) =
           filter (\<lambda>w. \<not> (w \<in> set (x # xs) \<and> connectionAlive s w = Some False)) (clients s)"
    using ih nx
    by (auto simp add: heartbeat_one_fields removeAll_filter_not_eq intro!: filter_cong)
  have r: "(\<forall>w. connectionAlive (heartbeat_loop (x # xs) s) w =
             (if w \<in> set (x # xs) \<and> connectionAlive s w \<noteq> Some False then Some False
              else connectionAlive s w))
       \<and> (\<forall>w. terminated (sockets (heartbeat_loop (x # xs) s) w) =
             (terminated (sockets s w) \<or> (w \<in> set (x # xs) \<and> connectionAlive s w = Some False)))
       \<and> (\<forall>w. pings (sockets (heartbeat_loop (x # xs) s) w) =
             pings (sockets s w)
               + (if w \<in> set (x # xs) \<and> connectionAlive s w \<noteq> Some False then 1 else 0))"
    using ih nx by (auto simp add: heartbeat_one_fields)
  from c r show ?case by blast
qed

lemma run_append: "run (a @ b) s = run b (run a s)"
  by (induction a arbitrary: s) auto

lemma heartbeat_fields:
  assumes "distinct (clients s)"
  shows "clients (heartbeat s) = filter (\<lambda>w. connectionAlive s w \<noteq> Some False) (clients s)"
    and "connectionAlive (heartbeat s) w =
           (if w \<in> set (clients s) \<and> connectionAlive s w \<noteq> Some False then Some False
            else connectionAlive s w)"
    and "terminated (sockets (heartbeat s) w) =
           (terminated (sockets s w) \<or> (w \<in> set (clients s) \<and> connectionAlive s w = Some False))"
    and "pings (sockets (heartbeat s) w) =
           pings (sockets s w)
             + (if w \<in> set (clients s) \<and> connectionAlive s w \<noteq> Some False then 1 else 0)"
proof -
  note h = heartbeat_loop_fields[OF assms, of s]
  from h have "clients (heartbeat s) =
     filter (\<lambda>w. \<not> (w \<in> set (clients s) \<and> connectionAlive s w = Some False)) (clients s)"
    by (simp add: heartbeat_def)
  also have "\<dots> = filter (\<lambda>w. connectionAlive s w \<noteq> Some False) (clients s)"
    by (rule filter_cong) auto
  finally show "clients (heartbeat s) = filter (\<lambda>w. connectionAlive s w \<noteq> Some False) (clients s)" .
  from h show "connectionAlive (heartbeat s) w =
           (if w \<in> set (clients s) \<and> connectionAlive s w \<noteq> Some False then Some False
            else connectionAlive s w)"
    by (simp add: heartbeat_def)
  from h show "terminated (sockets (heartbeat s) w) =
           (terminated (sockets s w) \<or> (w \<in> set (clients s) \<and> connectionAlive s w = Some False))"
    by (simp add: heartbeat_def)
  from h show "pings (sockets (heartbeat s) w) =
           pings (sockets s w)
             + (if w \<in> set (clients s) \<and> connectionAlive s w \<noteq> Some False then 1 else 0)"
    by (simp add: heartbeat_def)
qed

lemma step_distinct: "distinct (clients s) \<Longrightarrow> distinct (clients (step env ev s))"
proof (cases ev)
  case (Connection ws proto)
  assume "distinct (clients s)"
  then show ?thesis using Connection
    by (simp add: on_connection_clients Set_add_def)
next
  case (Pong ws)
  assume "distinct (clients s)"
  then show ?thesis using Pong by (simp add: on_pong_def)
next
  case (Message ws raw)
  assume "distinct (clients s)"
  then show ?thesis using Message by (simp add: onMessage_keeps)
next
  case (Close ws)
  assume "distinct (clients s)"
  then show ?thesis using Close by (simp add: step_Close_fields distinct_removeAll del: step.simps)
next
  case Heartbeat
  assume "distinct (clients s)"
  then show ?thesis using Heartbeat by (simp add: heartbeat_fields(1))
qed

lemma run_distinct: "distinct (clients s) \<Longrightarrow> distinct (clients (run evs s))"
proof (induction evs arbitrary: s)
  case Nil
  then show ?case by simp
next
  case (Cons a evs)
  obtain env ev where a: "a = (env, ev)" by (cases a)
  from Cons.IH[OF step_distinct[OF Cons.prems, of env ev]] show ?case by (simp add: a)
qed

lemma heartbeat_loop_subset: "set (clients (heartbeat_loop xs s)) \<subseteq> set (clients s)"
proof (induction xs arbitrary: s)
  case Nil
  then show ?case by simp
next
  case (Cons x xs)
  have "set (clients (heartbeat_one x s)) \<subseteq> set (clients s)"
    by (auto simp add: heartbeat_one_fields(1))
  with Cons.IH[of "heartbeat_one x s"] show ?case by auto
qed

lemma step_not_admitted:
  assumes "ws \<notin> set (clients s)" and "\<not> admits ws (env, ev)"
  shows "ws \<notin> set (clients (step env ev s))"
proof (cases ev)
  case (Connection w proto)
  then show ?thesis using assms by (auto simp add: on_connection_clients Set_add_def)
next
  case (Pong w)
  then show ?thesis using assms by (simp add: on_pong_def)
next
  case (Message w raw)
  then show ?thesis using assms by (simp add: onMessage_keeps)
next
  case (Close w)
  then show ?thesis using assms by (simp add: step_Close_fields del: step.simps)
next
  case Heartbeat
  have "set (clients (heartbeat s)) \<subseteq> set (clients s)"
    by (simp add: heartbeat_def heartbeat_loop_subset)
  then show ?thesis using assms Heartbeat by auto
qed

lemma run_not_admitted:
  assumes "ws \<notin> set (clients s)" and "\<forall>a \<in> set evs. \<not> admits ws a"
  shows "ws \<notin> set (clients (run evs s))"
  using assms
proof (induction evs arbitrary: s)
  case Nil
  then show ?case by simp
next
  case (Cons a evs)
  obtain env ev where a: "a = (env, ev)" by (cases a)
  from Cons.prems have "\<not> admits ws (env, ev)" by (simp add: a)
  from step_not_admitted[OF Cons.prems(1) this] Cons.IH Cons.prems(2)
  show ?case by (simp add: a)
qed

lemma step_pending:
  assumes "pending ws s" and "\<not> revives ws (env, ev)"
  shows "pending ws (step env ev s)"
proof -
  from assms(1) have d: "distinct (clients s)" by (simp add: pending_def)
  have d': "distinct (clients (step env ev s))" by (rule step_distinct[OF d])
  have "ws \<in> set (clients (step env ev s)) \<longrightarrow> connectionAlive (step env ev s) ws = Some False"
  proof (cases ev)
    case (Connection w proto)
    then show ?thesis using assms
      by (auto simp add: pending_def on_connection_clients on_connection_alive Set_add_def)
  next
    case (Pong w)
    then show ?thesis using assms by (auto simp add: pending_def on_pong_def)
  next
    case (Message w raw)
    then show ?thesis using assms by (simp add: pending_def onMessage_keeps)
  next
    case (Close w)
    then show ?thesis using assms by (auto simp add: pending_def step_Close_fields simp del: step.simps)
  next
    case Heartbeat
    then show ?thesis using assms d
      by (auto simp add: pending_def heartbeat_fields(1,2))
  qed
  with d' show ?thesis by (simp add: pending_def)
qed

lemma run_pending:
  assumes "pending ws s" and "\<forall>a \<in> set evs. \<not> revives ws a"
  shows "pending ws (run evs s)"
  using assms
proof (induction evs arbitrary: s)
  case Nil
  then show ?case by simp
next
  case (Cons a evs)
  obtain env ev where a: "a = (env, ev)" by (cases a)
  from Cons.prems have "\<not> revives ws (env, ev)" by (simp add: a)
  from step_pending[OF Cons.prems(1) this] Cons.IH Cons.prems(2)
  show ?case by (simp add: a)
qed

lemma heartbeat_pending: "distinct (clients s) \<Longrightarrow> pending ws (heartbeat s)"
  by (auto simp add: pending_def heartbeat_fields(1,2))

lemma heartbeat_evicts: "pending ws s \<Longrightarrow> ws \<notin> set (clients (heartbeat s))"
  by (auto simp add: pending_def heartbeat_fields(1))

lemma revives_admits: "\<not> revives ws a \<Longrightarrow> \<not> admits ws a"
proof -
  obtain env ev where a: "a = (env, ev)" by (cases a)
  assume "\<not> revives ws a"
  then show ?thesis unfolding a by (cases ev) auto
qed

lemmas bs_defs = on_connection_def authOk_def bearer_token_def index_opt_def trim_def is_space_def
  example_env_def example_decode_def jsonwebtoken_verify_def new_BridgeServer_def new_socket_def
  Set_add_def Set_delete_def notifyRendererConnected_def broadcastActiveTab_def emitEvent_def
  emitChat_def emitAll_def send_def ws_close_def heartbeat_def heartbeat_one_def on_pong_def
  on_close_def handleCmd_def getPageInfo_def example_cmd_def responses_def error_text_def Let_def




text \<open>
  C4.  For every command whose name is none of \<open>getPageInfo\<close>, \<open>setFeature\<close> and
  \<open>sendChat\<close>, the one response sent has \<open>ok: false\<close> and the non-empty error
  \<open>Unknown command\<close>; the set of active connections is unchanged, so the connection stays
  in it, and the handler neither closes nor terminates the socket.
\<close>

theorem unknown_command_answered:
  assumes "cmd_name msg \<notin> {''getPageInfo'', ''setFeature'', ''sendChat''}"
  shows "responses (handleCmd env msg ws s) ws
           = responses s ws @ [Res 1 (cmd_id msg) False None (Some ''Unknown command'')]
       \<and> res_ok (last (responses (handleCmd env msg ws s) ws)) = False
       \<and> (\<exists>t. res_error (last (responses (handleCmd env msg ws s) ws)) = Some t \<and> t \<noteq> [])
       \<and> clients (handleCmd env msg ws s) = clients s
       \<and> (ws \<in> set (clients s) \<longrightarrow> ws \<in> set (clients (handleCmd env msg ws s)))
       \<and> readyState (sockets (handleCmd env msg ws s) ws) = readyState (sockets s ws)
       \<and> closeCalls (sockets (handleCmd env msg ws s) ws) = closeCalls (sockets s ws)
       \<and> terminated (sockets (handleCmd env msg ws s) ws) = terminated (sockets s ws)"
proof -
  from assms have r: "response_of env msg = Res 1 (cmd_id msg) False None (Some ''Unknown command'')"
    by (simp add: response_of_def)
  from handleCmd_answers[of ws env msg s] show ?thesis
    by (simp add: answers_def r)
qed

lemma connected_server_fields:
  "clients connected_server = [7]"
  "connectionAlive connected_server 7 = Some True"
  "listeners connected_server 7 = True"
  "responses connected_server 7 = []"
  "sent (sockets connected_server 7)
     = [Evt 1 ''activeTab'' (ActiveTabData (Some ''t1'') ''https://example.com'') 200000]"
  "rendererNotices connected_server = [True]"
  by (simp_all add: connected_server_def bs_defs)

theorem unknown_command_answered_witness:
  "cmd_name (example_cmd ''reboot'') \<notin> {''getPageInfo'', ''setFeature'', ''sendChat''}
   \<and> responses (handleCmd (example_env 200) (example_cmd ''reboot'') 7 connected_server) 7
       = [Res 1 ''c1'' False None (Some ''Unknown command'')]
   \<and> clients (handleCmd (example_env 200) (example_cmd ''reboot'') 7 connected_server) = [7]"
proof -
  have h: "cmd_name (example_cmd ''reboot'') \<notin> {''getPageInfo'', ''setFeature'', ''sendChat''}"
    by (simp add: example_cmd_def)
  have e: "cmd_id (example_cmd ''reboot'') = ''c1''"
    by (simp add: example_cmd_def)
  from unknown_command_answered[OF h, of "example_env 200" 7 connected_server] h show ?thesis
    by (simp add: e connected_server_fields)
qed

text \<open>
  C2.  A connection whose bearer token (the third, trimmed, comma-separated part of the
  \<open>sec-websocket-protocol\<close> header) is refused by \<open>jwt.verify\<close> is closed with the code
  4001 and the reason \<open>unauthorized\<close>, and the active set, the liveness map and the
  listeners stay as they were.  A socket that is not in the active set and whose connections
  are all refused is in the active set after no sequence of events.  In particular, with the
  checks of \<open>jsonwebtoken\<close>, a token that decodes with an \<open>exp\<close> not after the clock is
  refused, whatever its signature.
\<close>

theorem unauthorized_connection_rejected:
  "(jwt_verify env (bearer_token proto) (or_default (BRIDGE_JWT_SECRET env) ''dev-secret'') \<noteq> None \<longrightarrow>
      clients (step env (Connection ws proto) s) = clients s
      \<and> connectionAlive (step env (Connection ws proto) s) = connectionAlive s
      \<and> listeners (step env (Connection ws proto) s) = listeners s
      \<and> closeCalls (sockets (step env (Connection ws proto) s) ws)
          = closeCalls (sockets s ws) @ [(4001, ''unauthorized'')])
   \<and> (ws \<notin> set (clients s) \<and> (\<forall>a \<in> set evs. \<not> admits ws a) \<longrightarrow>
        ws \<notin> set (clients (run evs s)))
   \<and> (jwt_verify env = jsonwebtoken_verify decode signature_ok clock
        \<and> decode (bearer_token proto) = Some p \<and> exp p = Some x \<and> x \<le> clock \<longrightarrow>
      clients (step env (Connection ws proto) s) = clients s
      \<and> closeCalls (sockets (step env (Connection ws proto) s) ws)
          = closeCalls (sockets s ws) @ [(4001, ''unauthorized'')]
      \<and> \<not> admits ws (env, Connection ws proto))"
proof -
  have rej: "clients (step env (Connection ws proto) s) = clients s
      \<and> connectionAlive (step env (Connection ws proto) s) = connectionAlive s
      \<and> listeners (step env (Connection ws proto) s) = listeners s
      \<and> closeCalls (sockets (step env (Connection ws proto) s) ws)
          = closeCalls (sockets s ws) @ [(4001, ''unauthorized'')]"
    if "jwt_verify env (bearer_token proto) (or_default (BRIDGE_JWT_SECRET env) ''dev-secret'') \<noteq> None"
  proof -
    from that obtain e where
      "jwt_verify env (bearer_token proto) (or_default (BRIDGE_JWT_SECRET env) ''dev-secret'') = Some e"
      by blast
    from on_connection_rejected[OF this, of ws s] show ?thesis
      by (simp add: ws_close_def)
  qed
  have expd: "jsonwebtoken_verify decode signature_ok clock (bearer_token proto) sec \<noteq> None"
    if "decode (bearer_token proto) = Some p" "exp p = Some x" "x \<le> clock" for sec
    using that by (simp add: jsonwebtoken_verify_def split: option.split)
  show ?thesis
    using rej expd run_not_admitted[of ws s evs] by auto
qed

theorem unauthorized_connection_rejected_witness:
  "clients (run [(example_env 500, Connection 7 (Some ''blueberry,v1,tok-100-400''))] new_BridgeServer) = []
   \<and> closeCalls (sockets (step (example_env 500) (Connection 7 (Some ''blueberry,v1,tok-100-400''))
        new_BridgeServer) 7) = [(4001, ''unauthorized'')]
   \<and> 7 \<notin> set (clients (run [(example_env 500, Connection 7 (Some ''blueberry,v1,tok-100-400'')),
                                (example_env 500, Heartbeat),
                                (example_env 500, Pong 7)] new_BridgeServer))"
proof -
  let ?proto = "Some ''blueberry,v1,tok-100-400''"
  have t: "bearer_token ?proto = ''tok-100-400''"
    by (simp add: bearer_token_def index_opt_def trim_def is_space_def Let_def)
  have v: "jwt_verify (example_env 500) = jsonwebtoken_verify example_decode (\<lambda>token secret. secret = ''dev-secret'') 500"
    by (simp add: example_env_def)
  have d: "example_decode (bearer_token ?proto) = Some \<lparr>iat = Some 100, nbf = Some 100, exp = Some 400\<rparr>"
    by (simp add: t example_decode_def)
  have n: "\<not> admits 7 (example_env 500, Connection 7 ?proto)"
    by (simp add: t example_env_def jsonwebtoken_verify_def example_decode_def)
  have a: "\<forall>a \<in> set [(example_env 500, Connection 7 ?proto), (example_env 500, Heartbeat),
                          (example_env 500, Pong 7)]. \<not> admits 7 a"
    using n by simp
  have c: "clients new_BridgeServer = []" "closeCalls (sockets new_BridgeServer 7) = []"
    by (simp_all add: new_BridgeServer_def new_socket_def)
  from unauthorized_connection_rejected[of "example_env 500" ?proto 7 new_BridgeServer
      "[(example_env 500, Connection 7 ?proto), (example_env 500, Heartbeat), (example_env 500, Pong 7)]"
      example_decode "(\<lambda>token secret. secret = ''dev-secret'')" 500
      "\<lparr>iat = Some 100, nbf = Some 100, exp = Some 400\<rparr>" 400]
    v d a c
  show ?thesis by simp
qed

text \<open>
  C3.  At a heartbeat tick, a connection in the active set whose liveness flag is \<open>false\<close>
  is terminated and removed from the set; any other connection in the set gets its flag set
  to \<open>false\<close> and one ping, and is not terminated.  A pong on an admitted socket sets its
  flag to \<open>true\<close>.  Hence, after any events (the last pong among them), a tick, events
  without a pong of the socket (and without a new connection on it), and a second tick,
  the socket is out of the active set, and stays out.
\<close>

theorem heartbeat_liveness:
  "(distinct (clients s) \<and> ws \<in> set (clients s) \<and> connectionAlive s ws = Some False \<longrightarrow>
      ws \<notin> set (clients (step env Heartbeat s))
      \<and> terminated (sockets (step env Heartbeat s) ws))
   \<and> (distinct (clients s) \<and> ws \<in> set (clients s) \<and> connectionAlive s ws \<noteq> Some False \<longrightarrow>
      ws \<in> set (clients (step env Heartbeat s))
      \<and> connectionAlive (step env Heartbeat s) ws = Some False
      \<and> pings (sockets (step env Heartbeat s) ws) = pings (sockets s ws) + 1
      \<and> terminated (sockets (step env Heartbeat s) ws) = terminated (sockets s ws))
   \<and> (listeners s ws \<longrightarrow> connectionAlive (step env (Pong ws) s) ws = Some True)
   \<and> (distinct (clients s)
        \<and> (\<forall>a \<in> set between. \<not> revives ws a) \<and> (\<forall>a \<in> set after. \<not> revives ws a) \<longrightarrow>
      ws \<notin> set (clients (run (before @ (env1, Heartbeat) # between @ (env2, Heartbeat) # after) s)))"
proof -
  have dead: "ws \<notin> set (clients (step env Heartbeat s))
      \<and> terminated (sockets (step env Heartbeat s) ws)"
    if "distinct (clients s)" "ws \<in> set (clients s)" "connectionAlive s ws = Some False"
    using that by (simp add: heartbeat_fields)
  have alive: "ws \<in> set (clients (step env Heartbeat s))
      \<and> connectionAlive (step env Heartbeat s) ws = Some False
      \<and> pings (sockets (step env Heartbeat s) ws) = pings (sockets s ws) + 1
      \<and> terminated (sockets (step env Heartbeat s) ws) = terminated (sockets s ws)"
    if "distinct (clients s)" "ws \<in> set (clients s)" "connectionAlive s ws \<noteq> Some False"
    using that by (simp add: heartbeat_fields)
  have pong: "connectionAlive (step env (Pong ws) s) ws = Some True" if "listeners s ws"
    using that by (simp add: on_pong_def)
  have evict: "ws \<notin> set (clients (run (before @ (env1, Heartbeat) # between @ (env2, Heartbeat) # after) s))"
    if d: "distinct (clients s)" and b: "\<forall>a \<in> set between. \<not> revives ws a"
      and a: "\<forall>a \<in> set after. \<not> revives ws a"
  proof -
    let ?s0 = "run before s"
    let ?s1 = "heartbeat ?s0"
    let ?s2 = "run between ?s1"
    let ?s3 = "heartbeat ?s2"
    have "distinct (clients ?s0)" by (rule run_distinct[OF d])
    then have "pending ws ?s1" by (rule heartbeat_pending)
    then have "pending ws ?s2" using b by (rule run_pending)
    then have "ws \<notin> set (clients ?s3)" by (rule heartbeat_evicts)
    moreover from a have "\<forall>a \<in> set after. \<not> admits ws a"
      using revives_admits by blast
    ultimately have "ws \<notin> set (clients (run after ?s3))" by (rule run_not_admitted)
    then show ?thesis by (simp add: run_append)
  qed
  from dead alive pong evict show ?thesis by blast
qed

theorem heartbeat_liveness_witness:
  "clients (step (example_env 200) Heartbeat connected_server) = [7]
   \<and> connectionAlive (step (example_env 200) Heartbeat connected_server) 7 = Some False
   \<and> pings (sockets (step (example_env 200) Heartbeat connected_server) 7)
       = pings (sockets connected_server 7) + 1
   \<and> connectionAlive (step (example_env 200) (Pong 7) connected_server) 7 = Some True
   \<and> 7 \<notin> set (clients (run ([(example_env 200, Pong 7)] @ (example_env 230, Heartbeat)
            # [(example_env 240, Message 7 NotJSON)] @ (example_env 260, Heartbeat) # []) connected_server))"
proof -
  have d: "distinct (clients connected_server)" "7 \<in> set (clients connected_server)"
    "connectionAlive connected_server 7 \<noteq> Some False" "listeners connected_server 7"
    by (simp_all add: connected_server_fields)
  have r: "\<forall>a \<in> set [(example_env 240, Message 7 NotJSON)]. \<not> revives 7 a"
    "\<forall>a \<in> set []. \<not> revives 7 a"
    by simp_all
  have c: "clients (step (example_env 200) Heartbeat connected_server) = [7]"
    by (simp add: heartbeat_fields(1) connected_server_fields)
  from heartbeat_liveness[of connected_server 7 "example_env 200"
      "[(example_env 240, Message 7 NotJSON)]" "[]" "[(example_env 200, Pong 7)]"
      "example_env 230" "example_env 260"] d r c
  show ?thesis by simp
qed

section \<open>Properties of the orchestration\<close>



lemma client_emitEvent_keeps:
  "messageStore (client_emitEvent ev c) = messageStore c"
  "generationCalls (client_emitEvent ev c) = generationCalls c"
  "toolInvocations (client_emitEvent ev c) = toolInvocations c"
  "didAppleLocaleFallback (client_emitEvent ev c) = didAppleLocaleFallback c"
  "chatResponses (client_emitEvent ev c) = chatResponses c"
  "hasWindow (client_emitEvent ev c) = hasWindow c"
  "modelManager (client_emitEvent ev c) = modelManager c"
  "client_provider (client_emitEvent ev c) = client_provider c"
  "client_model (client_emitEvent ev c) = client_model c"
  "client_appleAvailable (client_emitEvent ev c) = client_appleAvailable c"
  "client_baseOnlineProvider (client_emitEvent ev c) = client_baseOnlineProvider c"
  "lastToolResult (client_emitEvent ev c) = lastToolResult c"
  by (simp_all add: client_emitEvent_def)









lemma same_control_emitEvent: "same_control c (client_emitEvent ev c)"
  by (simp add: same_control_def client_emitEvent_keeps)

lemma same_control_setLast: "same_control c (c\<lparr>lastToolResult := x\<rparr>)"
  by (simp add: same_control_def)


















lemma consume_loop_open:
  assumes "\<not> snd acc" and "streamingIndex st = Some (length pre)"
    and "messages st = pre @ [\<lparr>role = Assistant, content = Text (fst acc)\<rparr>]"
  shows "\<exists>st'. consume_loop cs acc st = Inr ((fst acc @ concat cs, False), st')
           \<and> streamingIndex st' = Some (length pre)
           \<and> messages st' = pre @ [\<lparr>role = Assistant, content = Text (fst acc @ concat cs)\<rparr>]"
  using assms
proof (induction cs arbitrary: acc st)
  case Nil
  then show ?case by (cases acc) simp
next
  case (Cons ch cs)
  show ?case
  proof (cases "ch = []")
    case True
    then have "consume_chunk ch acc st = Inr (acc, st)" by (simp add: consume_chunk_def)
    with Cons.IH[OF Cons.prems] True show ?thesis by simp
  next
    case False
    from appendStream_open[OF Cons.prems(2,3), of ch] obtain st1 where
      a: "appendStream ch st = Inr st1" and
      i: "streamingIndex st1 = Some (length pre)" and
      m: "messages st1 = pre @ [\<lparr>role = Assistant, content = Text (fst acc @ ch)\<rparr>]"
      by blast
    have c: "consume_chunk ch acc st = Inr ((fst acc @ ch, False), st1)"
      using False Cons.prems(1) a by (simp add: consume_chunk_def)
    from Cons.IH[of "(fst acc @ ch, False)" st1] i m
    obtain st' where "consume_loop cs (fst acc @ ch, False) st1 = Inr (((fst acc @ ch) @ concat cs, False), st')"
      "streamingIndex st' = Some (length pre)"
      "messages st' = pre @ [\<lparr>role = Assistant, content = Text ((fst acc @ ch) @ concat cs)\<rparr>]"
      by auto
    then show ?thesis using c by simp
  qed
qed

lemma consume_loop_no_text:
  "\<forall>ch \<in> set cs. ch = [] \<Longrightarrow> consume_loop cs acc st = Inr (acc, st)"
  by (induction cs) (simp_all add: consume_chunk_def)

lemma consume_loop_first:
  assumes "\<exists>ch \<in> set cs. ch \<noteq> []"
  shows "\<exists>st'. consume_loop cs ([], True) st = Inr ((concat cs, False), st')
           \<and> streamingIndex st' = Some (length (messages st))
           \<and> messages st' = messages st @ [\<lparr>role = Assistant, content = Text (concat cs)\<rparr>]"
  using assms
proof (induction cs)
  case Nil
  then show ?case by simp
next
  case (Cons ch cs)
  show ?case
  proof (cases "ch = []")
    case True
    then have c: "consume_chunk ch ([], True) st = Inr (([], True), st)"
      by (simp add: consume_chunk_def)
    from True Cons.prems have "\<exists>ch \<in> set cs. ch \<noteq> []" by simp
    from Cons.IH[OF this] c True show ?thesis by simp
  next
    case False
    have c: "consume_chunk ch ([], True) st = Inr ((ch, False), beginStream ch st)"
      using False by (simp add: consume_chunk_def)
    have o: "\<exists>st'. consume_loop cs (ch, False) (beginStream ch st)
                 = Inr ((fst (ch, False) @ concat cs, False), st')
           \<and> streamingIndex st' = Some (length (messages st))
           \<and> messages st' = messages st
                @ [\<lparr>role = Assistant, content = Text (fst (ch, False) @ concat cs)\<rparr>]"
      by (rule consume_loop_open) (simp_all add: beginStream_fields)
    then show ?thesis using c by simp
  qed
qed

text \<open>
  \<open>Streamer.consume\<close> never throws; it returns the chunks joined, and appends one assistant
  message with that text, or nothing when there was no text.
\<close>

lemma consume_concat:
  "\<exists>st'. consume cs st = Inr (concat cs, st')
     \<and> messages st' = messages st
          @ (if concat cs = [] then [] else [\<lparr>role = Assistant, content = Text (concat cs)\<rparr>])"
proof (cases "\<exists>ch \<in> set cs. ch \<noteq> []")
  case False
  then have e: "\<forall>ch \<in> set cs. ch = []" by blast
  then have "concat cs = []" by simp
  then show ?thesis using consume_loop_no_text[OF e, of "([], True)" st]
    by (simp add: consume_def)
next
  case True
  then have ne: "concat cs \<noteq> []" by simp
  from consume_loop_first[OF True, of st] obtain st' where
    l: "consume_loop cs ([], True) st = Inr ((concat cs, False), st')" and
    m: "messages st' = messages st @ [\<lparr>role = Assistant, content = Text (concat cs)\<rparr>]"
    by blast
  have "consume cs st = Inr (concat cs, endStream st')"
    by (simp add: consume_def l)
  moreover have "messages (endStream st') = messages st'"
    by (simp add: endStream_def emitToRenderer_def)
  ultimately show ?thesis using m ne by (simp only: if_False) simp
qed

lemma consume_loop_appendStreams:
  assumes "[] \<notin> set cs"
  shows "consume_loop cs (t, False) st =
           (case appendStreams cs st of Inl e \<Rightarrow> Inl e | Inr st' \<Rightarrow> Inr ((t @ concat cs, False), st'))"
  using assms
proof (induction cs arbitrary: t st)
  case Nil
  then show ?case by simp
next
  case (Cons ch cs)
  then have ne: "ch \<noteq> []" and rest: "[] \<notin> set cs" by auto
  show ?case
  proof (cases "appendStream ch st")
    case (Inl e)
    then show ?thesis using ne by (simp add: consume_chunk_def)
  next
    case (Inr st1)
    then show ?thesis using ne Cons.IH[OF rest, of "t @ ch" st1]
      by (simp add: consume_chunk_def split: sum.split)
  qed
qed

text \<open>On chunks that are not empty, \<open>Streamer.consume\<close> makes the calls \<open>beginStream\<close>,
  \<open>appendStream\<close>, ..., \<open>endStream\<close> of the conversation log.\<close>

lemma consume_streamCalls:
  assumes "c0 \<noteq> []" and "[] \<notin> set cs"
  shows "consume (c0 # cs) st =
           (case streamCalls c0 cs st of Inl e \<Rightarrow> Inl e | Inr st' \<Rightarrow> Inr (concat (c0 # cs), st'))"
proof -
  have "consume_chunk c0 ([], True) st = Inr ((c0, False), beginStream c0 st)"
    using assms(1) by (simp add: consume_chunk_def)
  then show ?thesis
    using consume_loop_appendStreams[OF assms(2), of c0 "beginStream c0 st"]
    by (simp add: consume_def streamCalls_def split: sum.split)
qed










end
